theory Spec2Isabelle
  imports Main "HOL-Library.Word"
begin

unbundle bit_operations_syntax

section \<open>Common types\<close>

type_synonym byte = "8 word"

text \<open>Errors of the compiler are created with \<^verbatim>\<open>errors.New(msg)\<close>; a Go run-time panic
  (an unchecked type assertion, an explicit \<^verbatim>\<open>panic\<close>) is kept apart from them.\<close>

datatype error = ErrorsNew string | GoPanic string

section \<open>runtime/interface.go\<close>

record interface =
  typecode :: "16 word"
  "value" :: nat

definition interfaceEqual :: "interface \<Rightarrow> interface \<Rightarrow> error + bool" where
  "interfaceEqual x y =
     (if typecode x \<noteq> typecode y then Inr False
      else if typecode x = 0 then Inr True
      else Inl (GoPanic ''unimplemented: interface equality''))"

section \<open>runtime/string.go: comparison\<close>

text \<open>A Go string value is the sequence of its bytes; \<^verbatim>\<open>len(x)\<close> is \<open>length x\<close> and
  \<^verbatim>\<open>x[i]\<close> is \<open>x ! i\<close>. Both loops only index below both lengths.\<close>

function stringEqual_loop :: "byte list \<Rightarrow> byte list \<Rightarrow> nat \<Rightarrow> bool" where
  "stringEqual_loop x y i =
     (if i < length x then
        (if x ! i \<noteq> y ! i then False else stringEqual_loop x y (i + 1))
      else True)"
  by pat_completeness auto
termination
  by (relation "measure (\<lambda>(x, y, i). length x - i)") auto

declare stringEqual_loop.simps [simp del]

definition stringEqual :: "byte list \<Rightarrow> byte list \<Rightarrow> bool" where
  "stringEqual x y = (if length x \<noteq> length y then False else stringEqual_loop x y 0)"

function stringLess_loop :: "byte list \<Rightarrow> byte list \<Rightarrow> nat \<Rightarrow> nat \<Rightarrow> bool" where
  "stringLess_loop x y l i =
     (if i < l then
        (if x ! i < y ! i then True
         else if x ! i > y ! i then False
         else stringLess_loop x y l (i + 1))
      else length x < length y)"
  by pat_completeness auto
termination
  by (relation "measure (\<lambda>(x, y, l, i). l - i)") auto

declare stringLess_loop.simps [simp del]

definition stringLess :: "byte list \<Rightarrow> byte list \<Rightarrow> bool" where
  "stringLess x y =
     (let l = length x;
          l = (if length y < l then length y else l)
      in stringLess_loop x y l 0)"

text \<open>Go's order on strings: lexicographic on the bytes.\<close>

definition go_string_less :: "byte list \<Rightarrow> byte list \<Rightarrow> bool" where
  "go_string_less x y \<longleftrightarrow> (x, y) \<in> lexord {(a, b). a < b}"

section \<open>compiler.go: parseBinOp on strings\<close>

datatype token = ADD | SUB | MUL | QUO | REM | AND_tok | OR_tok | XOR_tok | SHL | SHR
  | AND_NOT | EQL | NEQ | LSS | LEQ | GTR | GEQ

fun token_String :: "token \<Rightarrow> string" where
  "token_String ADD = ''+''"
| "token_String SUB = ''-''"
| "token_String MUL = ''*''"
| "token_String QUO = ''/''"
| "token_String REM = ''%''"
| "token_String AND_tok = ''&''"
| "token_String OR_tok = ''|''"
| "token_String XOR_tok = ''^''"
| "token_String SHL = ''<<''"
| "token_String SHR = ''>>''"
| "token_String AND_NOT = ''&^''"
| "token_String EQL = ''==''"
| "token_String NEQ = ''!=''"
| "token_String LSS = ''<''"
| "token_String LEQ = ''<=''"
| "token_String GTR = ''>''"
| "token_String GEQ = ''>=''"

text \<open>The values the builder returns: an operand that is already lowered, a call of a
  runtime function (\<^verbatim>\<open>createRuntimeCall\<close>) and \<^verbatim>\<open>CreateNot\<close>.\<close>

datatype 'a llvm_value =
    Operand 'a
  | RuntimeCall string "'a llvm_value list"
  | CreateNot "'a llvm_value"

fun parseBinOp_string :: "token \<Rightarrow> 'a llvm_value \<Rightarrow> 'a llvm_value \<Rightarrow> error + 'a llvm_value" where
  "parseBinOp_string ADD x y = Inr (RuntimeCall ''stringConcat'' [x, y])"
| "parseBinOp_string EQL x y = Inr (RuntimeCall ''stringEqual'' [x, y])"
| "parseBinOp_string NEQ x y = Inr (CreateNot (RuntimeCall ''stringEqual'' [x, y]))"
| "parseBinOp_string LSS x y = Inr (RuntimeCall ''stringLess'' [x, y])"
| "parseBinOp_string LEQ x y = Inr (CreateNot (RuntimeCall ''stringLess'' [y, x]))"
| "parseBinOp_string GTR x y = Inr (CreateNot (RuntimeCall ''stringLess'' [x, y]))"
| "parseBinOp_string GEQ x y = Inr (RuntimeCall ''stringLess'' [y, x])"
| "parseBinOp_string op x y = Inl (ErrorsNew (''todo: binop on string: '' @ token_String op))"

text \<open>What the lowered value computes at run time, for the two comparison helpers.\<close>

datatype rtval = VString "byte list" | VBool bool

fun eval :: "rtval llvm_value \<Rightarrow> rtval option" where
  "eval (Operand v) = Some v"
| "eval (CreateNot e) =
     (case eval e of Some (VBool b) \<Rightarrow> Some (VBool (\<not> b)) | _ \<Rightarrow> None)"
| "eval (RuntimeCall name args) =
     (case map eval args of
        [Some (VString a), Some (VString b)] \<Rightarrow>
          (if name = ''stringEqual'' then Some (VBool (stringEqual a b))
           else if name = ''stringLess'' then Some (VBool (stringLess a b))
           else None)
      | _ \<Rightarrow> None)"

definition lowered_compare :: "token \<Rightarrow> byte list \<Rightarrow> byte list \<Rightarrow> rtval option" where
  "lowered_compare op x y =
     (case parseBinOp_string op (Operand (VString x)) (Operand (VString y)) of
        Inl e \<Rightarrow> None
      | Inr v \<Rightarrow> eval v)"

section \<open>go/types: basic kinds\<close>

text \<open>The basic types of \<^verbatim>\<open>go/types\<close>, one for each kind of \<^verbatim>\<open>types.Basic\<close> (\<open>Int_kind\<close> is
  \<^verbatim>\<open>types.Int\<close>), and the two aliases \<open>Byte\<close> and \<open>Rune\<close>: they are basic types of their own,
  named \<^verbatim>\<open>byte\<close> and \<^verbatim>\<open>rune\<close>, whose kind and flags are those of \<^verbatim>\<open>uint8\<close> and
  \<^verbatim>\<open>int32\<close>. Where the code below compares the kind of a type with \<^verbatim>\<open>types.String\<close>,
  \<^verbatim>\<open>types.UntypedString\<close>, \<^verbatim>\<open>types.Int\<close> or \<^verbatim>\<open>types.Complex128\<close>, no alias has that kind.\<close>

datatype basic_kind =
    Bool | Int_kind | Int8 | Int16 | Int32 | Int64
  | Uint | Uint8 | Uint16 | Uint32 | Uint64 | Uintptr
  | Float32 | Float64 | Complex64 | Complex128
  | String | UnsafePointer
  | UntypedBool | UntypedInt | UntypedRune | UntypedFloat | UntypedComplex
  | UntypedString | UntypedNil
  | Byte | Rune

text \<open>\<open>IsUnsigned\<close> is the flag \<^verbatim>\<open>types.IsUnsigned\<close> of \<^verbatim>\<open>Basic.Info()\<close>.\<close>

fun IsUnsigned :: "basic_kind \<Rightarrow> bool" where
  "IsUnsigned Uint = True"
| "IsUnsigned Uint8 = True"
| "IsUnsigned Uint16 = True"
| "IsUnsigned Uint32 = True"
| "IsUnsigned Uint64 = True"
| "IsUnsigned Uintptr = True"
| "IsUnsigned Byte = True"
| "IsUnsigned k = False"

text \<open>The name of a basic type, as \<^verbatim>\<open>String()\<close> gives it.\<close>

fun basic_kind_String :: "basic_kind \<Rightarrow> string" where
  "basic_kind_String Bool = ''bool''"
| "basic_kind_String Int_kind = ''int''"
| "basic_kind_String Int8 = ''int8''"
| "basic_kind_String Int16 = ''int16''"
| "basic_kind_String Int32 = ''int32''"
| "basic_kind_String Int64 = ''int64''"
| "basic_kind_String Uint = ''uint''"
| "basic_kind_String Uint8 = ''uint8''"
| "basic_kind_String Uint16 = ''uint16''"
| "basic_kind_String Uint32 = ''uint32''"
| "basic_kind_String Uint64 = ''uint64''"
| "basic_kind_String Uintptr = ''uintptr''"
| "basic_kind_String Float32 = ''float32''"
| "basic_kind_String Float64 = ''float64''"
| "basic_kind_String Complex64 = ''complex64''"
| "basic_kind_String Complex128 = ''complex128''"
| "basic_kind_String String = ''string''"
| "basic_kind_String UnsafePointer = ''unsafe.Pointer''"
| "basic_kind_String UntypedBool = ''untyped bool''"
| "basic_kind_String UntypedInt = ''untyped int''"
| "basic_kind_String UntypedRune = ''untyped rune''"
| "basic_kind_String UntypedFloat = ''untyped float''"
| "basic_kind_String UntypedComplex = ''untyped complex''"
| "basic_kind_String UntypedString = ''untyped string''"
| "basic_kind_String UntypedNil = ''untyped nil''"
| "basic_kind_String Byte = ''byte''"
| "basic_kind_String Rune = ''rune''"

text \<open>A Go type as far as the code below looks at it: a basic type, or any other type
  (for which the type assertion \<^verbatim>\<open>.(*types.Basic)\<close> panics).\<close>

datatype go_type = Basic basic_kind | NotBasic string

section \<open>compiler.go: emitBoundsCheck\<close>

text \<open>Integer-typed LLVM values. The width is the last argument; a constant carries its bit
  pattern as a natural number below \<open>2 ^ width\<close>. \<open>ZExt\<close> and \<open>SExt\<close> are what
  \<^verbatim>\<open>CreateZExt\<close> and \<^verbatim>\<open>CreateSExt\<close> build; on a constant integer the builder folds them.
  \<open>Trunc\<close> and \<open>Sub\<close> are the instructions of \<^verbatim>\<open>CreateTrunc\<close> and \<^verbatim>\<open>CreateSub\<close>, and
  \<open>ExtractValue X i w\<close> is field \<open>i\<close>, of width \<open>w\<close>, of the aggregate operand \<open>X\<close>.\<close>

datatype llvm_int =
    ConstInt nat nat
  | UndefInt nat
  | Local string nat
  | ZExt llvm_int nat
  | SExt llvm_int nat
  | Trunc llvm_int nat
  | Sub llvm_int llvm_int
  | ExtractValue string nat nat

fun IntTypeWidth :: "llvm_int \<Rightarrow> nat" where
  "IntTypeWidth (ConstInt n w) = w"
| "IntTypeWidth (UndefInt w) = w"
| "IntTypeWidth (Local x w) = w"
| "IntTypeWidth (ZExt v w) = w"
| "IntTypeWidth (SExt v w) = w"
| "IntTypeWidth (Trunc v w) = w"
| "IntTypeWidth (Sub a b) = IntTypeWidth a"
| "IntTypeWidth (ExtractValue X i w) = w"

definition signed_of :: "nat \<Rightarrow> nat \<Rightarrow> int" where
  "signed_of w n = (if w = 0 \<or> n mod 2 ^ w < 2 ^ (w - 1) then int (n mod 2 ^ w)
                    else int (n mod 2 ^ w) - 2 ^ w)"

definition CreateZExt :: "llvm_int \<Rightarrow> nat \<Rightarrow> llvm_int" where
  "CreateZExt v w = (case v of ConstInt n w0 \<Rightarrow> ConstInt (n mod 2 ^ w0) w | _ \<Rightarrow> ZExt v w)"

definition CreateSExt :: "llvm_int \<Rightarrow> nat \<Rightarrow> llvm_int" where
  "CreateSExt v w =
     (case v of ConstInt n w0 \<Rightarrow> ConstInt (nat (signed_of w0 n mod 2 ^ w)) w | _ \<Rightarrow> SExt v w)"

fun IsConstant :: "llvm_int \<Rightarrow> bool" where
  "IsConstant (ConstInt n w) = True"
| "IsConstant (UndefInt w) = True"
| "IsConstant (Local x w) = False"
| "IsConstant (ZExt v w) = IsConstant v"
| "IsConstant (SExt v w) = IsConstant v"
| "IsConstant (Trunc v w) = False"
| "IsConstant (Sub a b) = False"
| "IsConstant (ExtractValue X i w) = False"

fun IsUndef :: "llvm_int \<Rightarrow> bool" where
  "IsUndef (UndefInt w) = True"
| "IsUndef v = False"

text \<open>\<^verbatim>\<open>SExtValue\<close> is defined on constant integers only.\<close>

fun SExtValue :: "llvm_int \<Rightarrow> int option" where
  "SExtValue (ConstInt n w) = Some (signed_of w n)"
| "SExtValue v = None"

text \<open>The result is the runtime call that was emitted, if any: its name and its arguments.
  \<open>noBounds\<close> is \<^verbatim>\<open>frame.fn.IsNoBounds()\<close>, \<open>intWidth\<close> the width of \<^verbatim>\<open>c.intType\<close>.\<close>

definition emitBoundsCheck ::
  "bool \<Rightarrow> nat \<Rightarrow> llvm_int \<Rightarrow> llvm_int \<Rightarrow> go_type \<Rightarrow> error + (string \<times> llvm_int list) option" where
  "emitBoundsCheck noBounds intWidth arrayLen index indexType =
     (if noBounds then Inr None
      else
        (case (if IntTypeWidth index < IntTypeWidth arrayLen then
                 (case indexType of
                    NotBasic t \<Rightarrow> Inl (GoPanic ''interface conversion: types.Type is not *types.Basic'')
                  | Basic k \<Rightarrow>
                      if \<not> IsUnsigned k then Inr (CreateZExt index (IntTypeWidth arrayLen))
                      else Inr (CreateSExt index (IntTypeWidth arrayLen)))
               else Inr index) of
           Inl e \<Rightarrow> Inl e
         | Inr index \<Rightarrow>
             (case (if IsConstant index \<and> IsConstant arrayLen \<and> \<not> IsUndef arrayLen
                    then (case (SExtValue index, SExtValue arrayLen) of
                            (Some i, Some l) \<Rightarrow> Inr (0 \<le> i \<and> i < l)
                          | _ \<Rightarrow> Inl (GoPanic ''SExtValue of a constant that is no integer''))
                    else Inr False) of
                Inl e \<Rightarrow> Inl e
              | Inr True \<Rightarrow> Inr None
              | Inr False \<Rightarrow>
                  if IntTypeWidth index > intWidth
                  then Inr (Some (''lookupBoundsCheckLong'', [arrayLen, index]))
                  else Inr (Some (''lookupBoundsCheck'', [arrayLen, index])))))"

section \<open>compiler.go: the body of mainWrapper (Compile)\<close>

datatype llvm_arg = ConstPointerNull_i8ptr | ResultOf nat

datatype llvm_instr = CreateCall string "llvm_arg list" | CreateRetVoid

text \<open>The builder appends to the block; a call's value is referred to by its position.\<close>

definition build_call :: "llvm_instr list \<Rightarrow> string \<Rightarrow> llvm_arg list \<Rightarrow> llvm_instr list \<times> llvm_arg" where
  "build_call block fn args = (block @ [CreateCall fn args], ResultOf (length block))"

text \<open>\<open>debugInfo\<close> is the outcome of \<^verbatim>\<open>attachDebugInfo(mainWrapper)\<close>, looked at only when
  \<^verbatim>\<open>c.Debug\<close> is set; \<open>needsScheduler\<close> is \<^verbatim>\<open>c.ir.NeedsScheduler()\<close> and \<open>mainPath\<close> the
  path of the main package.\<close>

definition Compile_mainWrapper ::
  "bool \<Rightarrow> error option \<Rightarrow> bool \<Rightarrow> string \<Rightarrow> error + llvm_instr list" where
  "Compile_mainWrapper Debug debugInfo needsScheduler mainPath =
     (case (if Debug then debugInfo else None) of
        Some err \<Rightarrow> Inl err
      | None \<Rightarrow>
          (let block = [];
               realMain = mainPath @ ''.main'';
               block =
                 (if needsScheduler then
                    (let (block, coroutine) = build_call block realMain [ConstPointerNull_i8ptr];
                         scheduler = ''runtime.scheduler'';
                         (block, _) = build_call block scheduler [coroutine]
                     in block)
                  else fst (build_call block realMain []))
           in Inr (block @ [CreateRetVoid])))"

section \<open>runtime/string.go: UTF-8\<close>

text \<open>\<^verbatim>\<open>rune\<close> is \<^verbatim>\<open>int32\<close>: its comparisons are signed and \<^verbatim>\<open>>>\<close> is the arithmetic
  shift. \<^verbatim>\<open>lenType\<close> is the 32-bit unsigned length type. The \<^verbatim>\<open>[4]byte\<close> array is a list of
  four bytes.\<close>

type_synonym rune = "32 word"
type_synonym lenType = "32 word"

definition byte_of_rune :: "rune \<Rightarrow> byte" where
  "byte_of_rune x = ucast x"

definition rune_of_byte :: "byte \<Rightarrow> rune" where
  "rune_of_byte b = ucast b"

definition encodeUTF8 :: "rune \<Rightarrow> byte list \<times> lenType" where
  "encodeUTF8 x =
     (if x \<le>s 0x7f then ([byte_of_rune x, 0, 0, 0], 1)
      else if x \<le>s 0x7ff then
        (let b1 = 0xc0 OR byte_of_rune (signed_drop_bit 6 x);
             b2 = 0x80 OR byte_of_rune (x AND 0x3f)
         in ([b1, b2, 0, 0], 2))
      else if x \<le>s 0xffff then
        (let b1 = 0xe0 OR byte_of_rune (signed_drop_bit 12 x);
             b2 = 0x80 OR byte_of_rune (signed_drop_bit 6 x AND 0x3f);
             b3 = 0x80 OR byte_of_rune (signed_drop_bit 0 x AND 0x3f)
         in ([b1, b2, b3, 0], 3))
      else if x \<le>s 0x10ffff then
        (let b1 = 0xf0 OR byte_of_rune (signed_drop_bit 18 x);
             b2 = 0x80 OR byte_of_rune (signed_drop_bit 12 x AND 0x3f);
             b3 = 0x80 OR byte_of_rune (signed_drop_bit 6 x AND 0x3f);
             b4 = 0x80 OR byte_of_rune (signed_drop_bit 0 x AND 0x3f)
         in ([b1, b2, b3, b4], 4))
      else ([0xef, 0xbf, 0xbd, 0], 3))"

text \<open>\<^verbatim>\<open>decodeUTF8\<close> is compiled without bounds checks and reads \<^verbatim>\<open>s[index]\<close> first: a read
  outside the string has no defined result, which is \<open>None\<close> here. The later reads are
  guarded by \<open>remaining\<close>.\<close>

definition string_at :: "byte list \<Rightarrow> lenType \<Rightarrow> byte option" where
  "string_at s i = (if unat i < length s then Some (s ! unat i) else None)"

definition decodeUTF8 :: "byte list \<Rightarrow> lenType \<Rightarrow> (rune \<times> lenType) option" where
  "decodeUTF8 s index =
     (let remaining = (of_nat (length s) :: lenType) - index in
      case string_at s index of
        None \<Rightarrow> None
      | Some x \<Rightarrow>
          if x AND 0x80 = 0x00 then Some (rune_of_byte x, 1)
          else if x AND 0xe0 = 0xc0 then
            (if remaining < 2 then Some (0xfffd, 1)
             else case string_at s (index + 1) of
                    None \<Rightarrow> None
                  | Some s1 \<Rightarrow>
                      Some (push_bit 6 (rune_of_byte (x AND 0x1f)) OR (rune_of_byte s1 AND 0x3f), 2))
          else if x AND 0xf0 = 0xe0 then
            (if remaining < 3 then Some (0xfffd, 1)
             else case (string_at s (index + 1), string_at s (index + 2)) of
                    (Some s1, Some s2) \<Rightarrow>
                      Some (push_bit 12 (rune_of_byte (x AND 0x0f))
                              OR push_bit 6 (rune_of_byte s1 AND 0x3f)
                              OR (rune_of_byte s2 AND 0x3f), 3)
                  | _ \<Rightarrow> None)
          else if x AND 0xf8 = 0xf0 then
            (if remaining < 4 then Some (0xfffd, 1)
             else case (string_at s (index + 1), string_at s (index + 2), string_at s (index + 3)) of
                    (Some s1, Some s2, Some s3) \<Rightarrow>
                      Some (push_bit 18 (rune_of_byte (x AND 0x07))
                              OR push_bit 12 (rune_of_byte s1 AND 0x3f)
                              OR push_bit 6 (rune_of_byte s2 AND 0x3f)
                              OR (rune_of_byte s3 AND 0x3f), 4)
                  | _ \<Rightarrow> None)
          else Some (0xfffd, 1))"

section \<open>runtime/string.go: stringConcat\<close>













section \<open>compiler.go: parseFuncDecl\<close>

datatype llvm_type =
    VoidType
  | IntType nat
  | FloatType
  | DoubleType
  | PointerType llvm_type
  | ArrayType llvm_type nat
  | VectorType llvm_type nat
  | StructType "llvm_type list"
  | NamedStructType string
  | FunctionType llvm_type "llvm_type list"

definition i8ptrType :: llvm_type where
  "i8ptrType = PointerType (IntType 8)"

text \<open>An SSA function as \<open>parseFuncDecl\<close> reads it. \<open>Results\<close> is \<^verbatim>\<open>f.Signature.Results()\<close>:
  the tuple of result types, the empty list standing for the nil tuple of a function without
  results. The types are kept abstract (\<open>'t\<close>); the type lowerer is a parameter.\<close>

record 't ir_function =
  LinkName :: string
  Results :: "'t list"
  Params :: "'t list"

record frame =
  LLVMFn :: "string \<times> llvm_type"
  blocking :: bool

text \<open>The module as far as functions go: the type each named function was declared with.\<close>

type_synonym llvm_module = "string \<rightharpoonup> llvm_type"

definition UnsupportedBlockingReturn :: error where
  "UnsupportedBlockingReturn = ErrorsNew ''todo: return values in blocking function''"

text \<open>The loop over the results of a function with several results.\<close>

fun lower_results :: "('t \<Rightarrow> error + llvm_type) \<Rightarrow> 't list \<Rightarrow> llvm_type list \<Rightarrow> error + llvm_type list" where
  "lower_results getLLVMType [] results = Inr results"
| "lower_results getLLVMType (t # ts) results =
     (case getLLVMType t of
        Inl err \<Rightarrow> Inl err
      | Inr typ \<Rightarrow> lower_results getLLVMType ts (results @ [typ]))"

text \<open>The loop over the parameters: each is lowered and then expanded into fragments.\<close>

fun lower_params ::
  "('t \<Rightarrow> error + llvm_type) \<Rightarrow> (llvm_type \<Rightarrow> llvm_type list) \<Rightarrow> 't list \<Rightarrow> llvm_type list
     \<Rightarrow> error + llvm_type list" where
  "lower_params getLLVMType expandFormalParamType [] paramTypes = Inr paramTypes"
| "lower_params getLLVMType expandFormalParamType (p # ps) paramTypes =
     (case getLLVMType p of
        Inl err \<Rightarrow> Inl err
      | Inr paramType \<Rightarrow>
          lower_params getLLVMType expandFormalParamType ps
            (paramTypes @ expandFormalParamType paramType))"

text \<open>\<open>attachDebugInfoRaw\<close> as far as it can fail: the loop that asks \<open>getDIType\<close> for the
  debug type of each parameter. \<open>getDIType\<close> answers from the cache \<^verbatim>\<open>c.ditypes\<close> (here the
  list of the types it holds) or lowers the type, which is its only error, and caches it.\<close>

fun attachDebugInfoRaw :: "('t \<Rightarrow> error + llvm_type) \<Rightarrow> 't list \<Rightarrow> 't list \<Rightarrow> error option" where
  "attachDebugInfoRaw getLLVMType ditypes [] = None"
| "attachDebugInfoRaw getLLVMType ditypes (param # params) =
     (if param \<in> set ditypes then attachDebugInfoRaw getLLVMType ditypes params
      else
        (case getLLVMType param of
           Inl err \<Rightarrow> Some err
         | Inr llvmType \<Rightarrow> attachDebugInfoRaw getLLVMType (param # ditypes) params))"

text \<open>\<open>isBlocking\<close> is \<^verbatim>\<open>c.ir.IsBlocking(f)\<close> and \<open>needsContext\<close> is
  \<^verbatim>\<open>c.ir.FunctionNeedsContext(f)\<close>. \<open>attachDebug\<close> says whether debug information is attached
  at the end: \<^verbatim>\<open>c.Debug\<close> is set and the function is a package initializer or has syntax and
  blocks; \<open>ditypes\<close> is the cache of debug types. The result is the frame and the module.\<close>

definition parseFuncDecl ::
  "('t \<Rightarrow> error + llvm_type) \<Rightarrow> (llvm_type \<Rightarrow> llvm_type list) \<Rightarrow> bool \<Rightarrow> bool \<Rightarrow> bool
     \<Rightarrow> 't list \<Rightarrow> llvm_module \<Rightarrow> 't ir_function \<Rightarrow> error + (frame \<times> llvm_module)" where
  "parseFuncDecl getLLVMType expandFormalParamType isBlocking needsContext attachDebug ditypes
     mod' f =
     (case (if isBlocking then
              (if Results f \<noteq> [] then Inl UnsupportedBlockingReturn else Inr i8ptrType)
            else if Results f = [] then Inr VoidType
            else if length (Results f) = 1 then getLLVMType (Results f ! 0)
            else (case lower_results getLLVMType (Results f) [] of
                    Inl err \<Rightarrow> Inl err
                  | Inr results \<Rightarrow> Inr (StructType results))) of
        Inl err \<Rightarrow> Inl err
      | Inr retType \<Rightarrow>
          (case lower_params getLLVMType expandFormalParamType (Params f)
                  (if isBlocking then [i8ptrType] else []) of
             Inl err \<Rightarrow> Inl err
           | Inr paramTypes \<Rightarrow>
               (let paramTypes = (if needsContext then paramTypes @ [i8ptrType] else paramTypes);
                    fnType = FunctionType retType paramTypes;
                    name = LinkName f;
                    (llvmFn, mod') =
                      (case mod' name of
                         Some t \<Rightarrow> ((name, t), mod')
                       | None \<Rightarrow> ((name, fnType), mod'(name \<mapsto> fnType)))
                in case (if attachDebug
                         then attachDebugInfoRaw getLLVMType ditypes (Params f) else None) of
                     Some err \<Rightarrow> Inl err
                   | None \<Rightarrow> Inr (\<lparr>LLVMFn = llvmFn, blocking = isBlocking\<rparr>, mod'))))"

text \<open>The case \<^verbatim>\<open>*types.Basic\<close> of \<open>getLLVMType\<close>, to run \<open>parseFuncDecl\<close> on functions whose
  types are basic: \<^verbatim>\<open>c.intType\<close> is 32 bits wide and \<open>ptrBits\<close> is the width of
  \<^verbatim>\<open>c.uintptrType\<close>. The expansion of a parameter type that is no aggregate is the type.\<close>

fun getLLVMType_Basic :: "nat \<Rightarrow> basic_kind \<Rightarrow> error + llvm_type" where
  "getLLVMType_Basic ptrBits Bool = Inr (IntType 1)"
| "getLLVMType_Basic ptrBits UntypedBool = Inr (IntType 1)"
| "getLLVMType_Basic ptrBits Int8 = Inr (IntType 8)"
| "getLLVMType_Basic ptrBits Uint8 = Inr (IntType 8)"
| "getLLVMType_Basic ptrBits Byte = Inr (IntType 8)"
| "getLLVMType_Basic ptrBits Int16 = Inr (IntType 16)"
| "getLLVMType_Basic ptrBits Uint16 = Inr (IntType 16)"
| "getLLVMType_Basic ptrBits Int32 = Inr (IntType 32)"
| "getLLVMType_Basic ptrBits Uint32 = Inr (IntType 32)"
| "getLLVMType_Basic ptrBits Rune = Inr (IntType 32)"
| "getLLVMType_Basic ptrBits Int_kind = Inr (IntType 32)"
| "getLLVMType_Basic ptrBits Uint = Inr (IntType 32)"
| "getLLVMType_Basic ptrBits Int64 = Inr (IntType 64)"
| "getLLVMType_Basic ptrBits Uint64 = Inr (IntType 64)"
| "getLLVMType_Basic ptrBits Float32 = Inr FloatType"
| "getLLVMType_Basic ptrBits Float64 = Inr DoubleType"
| "getLLVMType_Basic ptrBits Complex64 = Inr (VectorType FloatType 2)"
| "getLLVMType_Basic ptrBits Complex128 = Inr (VectorType DoubleType 2)"
| "getLLVMType_Basic ptrBits String = Inr (NamedStructType ''runtime._string'')"
| "getLLVMType_Basic ptrBits UntypedString = Inr (NamedStructType ''runtime._string'')"
| "getLLVMType_Basic ptrBits Uintptr = Inr (IntType ptrBits)"
| "getLLVMType_Basic ptrBits UnsafePointer = Inr i8ptrType"
| "getLLVMType_Basic ptrBits k =
     Inl (ErrorsNew (''todo: unknown basic type: '' @ basic_kind_String k))"

definition example_expand :: "llvm_type \<Rightarrow> llvm_type list" where
  "example_expand t = [t]"

section \<open>compiler.go: emitSliceBoundsCheck and the slice expression (parseExpr, case ssa.Slice)\<close>

definition emitSliceBoundsCheck ::
  "bool \<Rightarrow> llvm_int \<Rightarrow> llvm_int \<Rightarrow> llvm_int \<Rightarrow> (string \<times> llvm_int list) option" where
  "emitSliceBoundsCheck noBounds capacity low high =
     (if noBounds then None
      else if IntTypeWidth low > 32 \<or> IntTypeWidth high > 32 then
        (let low = (if IntTypeWidth low < 64 then CreateSExt low 64 else low);
             high = (if IntTypeWidth high < 64 then CreateSExt high 64 else high)
         in Some (''sliceBoundsCheckLong'', [capacity, low, high]))
      else Some (''sliceBoundsCheck'', [capacity, low, high]))"

text \<open>Pointer-typed values: a pointer operand, the pointer field of an aggregate operand, and
  \<^verbatim>\<open>CreateGEP\<close>. The value of the expression is a slice \<open>{ptr, len, cap}\<close> or a string
  \<open>{ptr, len}\<close>, built with \<^verbatim>\<open>CreateInsertValue\<close>.\<close>

datatype llvm_ptr =
    OperandPtr string
  | ExtractValuePtr string nat
  | GEP llvm_ptr "llvm_int list"

datatype llvm_aggregate =
    SliceValue llvm_ptr llvm_int llvm_int
  | StringValue llvm_ptr llvm_int

text \<open>The type of the sliced operand, \<^verbatim>\<open>expr.X.Type().Underlying()\<close>: a pointer to an array of
  a length, a pointer to something else, a slice, a basic type, or another type.\<close>

datatype sliced_type =
    PointerToArray nat
  | PointerToOther string
  | SliceType
  | BasicType basic_kind
  | OtherType string

fun IsString :: "basic_kind \<Rightarrow> bool" where
  "IsString String = True"
| "IsString UntypedString = True"
| "IsString k = False"

text \<open>\<^verbatim>\<open>TypeAllocSize\<close> of an integer type of the given width, in bytes.\<close>

definition TypeAllocSize_int :: "nat \<Rightarrow> nat" where
  "TypeAllocSize_int w = (w + 7) div 8"

text \<open>The operands are given lowered: \<open>X\<close> names the value of \<^verbatim>\<open>expr.X\<close>, \<open>Low\<close> and \<open>High\<close>
  are the values of \<^verbatim>\<open>expr.Low\<close> and \<^verbatim>\<open>expr.High\<close> where present, and \<open>MaxType\<close> is present
  (the name of the type of the expression) when \<^verbatim>\<open>expr.Max\<close> is. \<open>intWidth\<close> and \<open>lenWidth\<close> are the widths of \<^verbatim>\<open>c.intType\<close> and
  \<^verbatim>\<open>c.lenType\<close>. The result is the bounds-check call that was emitted, if any, and the value.\<close>

definition parseExpr_Slice ::
  "bool \<Rightarrow> nat \<Rightarrow> nat \<Rightarrow> string option \<Rightarrow> string \<Rightarrow> sliced_type
     \<Rightarrow> llvm_int option \<Rightarrow> llvm_int option
     \<Rightarrow> error + ((string \<times> llvm_int list) option \<times> llvm_aggregate)" where
  "parseExpr_Slice noBounds intWidth lenWidth MaxType X typ Low High =
     (case MaxType of
        Some exprType \<Rightarrow>
          Inl (ErrorsNew (''todo: full slice expressions (with max): '' @ exprType))
      | None \<Rightarrow>
        (let low = (case Low of None \<Rightarrow> ConstInt 0 intWidth | Some l \<Rightarrow> l) in
         case typ of
           PointerToArray length' \<Rightarrow>
             (let llvmLen = ConstInt (length' mod 2 ^ lenWidth) lenWidth;
                  llvmLenInt = ConstInt (length' mod 2 ^ intWidth) intWidth;
                  high = (case High of None \<Rightarrow> llvmLenInt | Some h \<Rightarrow> h);
                  slicePtr = GEP (OperandPtr X) [ConstInt 0 32, low];
                  sliceLen = Sub high low;
                  sliceCap = Sub llvmLenInt low;
                  check = emitSliceBoundsCheck noBounds llvmLen low high;
                  (sliceLen, sliceCap) =
                    (if TypeAllocSize_int (IntTypeWidth sliceLen) > TypeAllocSize_int lenWidth
                     then (Trunc sliceLen lenWidth, Trunc sliceCap lenWidth)
                     else (sliceLen, sliceCap))
              in Inr (check, SliceValue slicePtr sliceLen sliceCap))
         | PointerToOther t \<Rightarrow>
             Inl (GoPanic ''interface conversion: types.Type is not *types.Array'')
         | SliceType \<Rightarrow>
             (let oldPtr = ExtractValuePtr X 0;
                  oldLen = ExtractValue X 1 lenWidth;
                  oldCap = ExtractValue X 2 lenWidth;
                  high = (case High of None \<Rightarrow> oldLen | Some h \<Rightarrow> h);
                  check = emitSliceBoundsCheck noBounds oldCap low high;
                  low = (if TypeAllocSize_int (IntTypeWidth low) > TypeAllocSize_int lenWidth
                         then Trunc low lenWidth else low);
                  high = (if TypeAllocSize_int (IntTypeWidth high) > TypeAllocSize_int lenWidth
                          then Trunc high lenWidth else high);
                  newPtr = GEP oldPtr [low];
                  newLen = Sub high low;
                  newCap = Sub oldCap low
              in Inr (check, SliceValue newPtr newLen newCap))
         | BasicType k \<Rightarrow>
             (if \<not> IsString k then Inl (ErrorsNew (''unknown slice type: '' @ basic_kind_String k))
              else
                (let oldPtr = ExtractValuePtr X 0;
                     oldLen = ExtractValue X 1 lenWidth;
                     high = (case High of None \<Rightarrow> oldLen | Some h \<Rightarrow> h);
                     check = emitSliceBoundsCheck noBounds oldLen low high;
                     newPtr = GEP oldPtr [low];
                     newLen = Sub high low
                 in Inr (check, StringValue newPtr newLen)))
         | OtherType t \<Rightarrow> Inl (ErrorsNew (''unknown slice type: '' @ t))))"

subsection \<open>What the emitted code computes\<close>

text \<open>The operands at run time: \<open>local_of\<close> gives the value of a local, \<open>field_of X i\<close>
  the value of field \<open>i\<close> of the aggregate \<open>X\<close> (a pointer field holds an address, the null
  pointer being 0), \<open>ptr_of\<close> the address in a pointer operand. An undefined value has no result.\<close>

record operands =
  local_of :: "string \<Rightarrow> nat"
  field_of :: "string \<Rightarrow> nat \<Rightarrow> nat"
  ptr_of :: "string \<Rightarrow> int"

fun eval_int :: "operands \<Rightarrow> llvm_int \<Rightarrow> nat option" where
  "eval_int env (ConstInt n w) = Some (n mod 2 ^ w)"
| "eval_int env (UndefInt w) = None"
| "eval_int env (Local x w) = Some (local_of env x mod 2 ^ w)"
| "eval_int env (ZExt v w) = eval_int env v"
| "eval_int env (SExt v w) =
     (case eval_int env v of None \<Rightarrow> None
      | Some n \<Rightarrow> Some (nat (signed_of (IntTypeWidth v) n mod 2 ^ w)))"
| "eval_int env (Trunc v w) =
     (case eval_int env v of None \<Rightarrow> None | Some n \<Rightarrow> Some (n mod 2 ^ w))"
| "eval_int env (Sub a b) =
     (case (eval_int env a, eval_int env b) of
        (Some x, Some y) \<Rightarrow>
          Some (nat ((int x - int y) mod 2 ^ IntTypeWidth a))
      | _ \<Rightarrow> None)"
| "eval_int env (ExtractValue X i w) = Some (field_of env X i mod 2 ^ w)"

text \<open>Addresses: \<^verbatim>\<open>getelementptr\<close> with one index steps by elements of \<open>elemSize\<close> bytes; with
  two indices (a pointer to an array) the first steps by whole arrays of \<open>arraySize\<close> bytes.
  Indices are signed.\<close>

fun eval_ptr :: "operands \<Rightarrow> nat \<Rightarrow> nat \<Rightarrow> llvm_ptr \<Rightarrow> int option" where
  "eval_ptr env elemSize arraySize (OperandPtr X) = Some (ptr_of env X)"
| "eval_ptr env elemSize arraySize (ExtractValuePtr X i) = Some (int (field_of env X i))"
| "eval_ptr env elemSize arraySize (GEP p idx) =
     (case (eval_ptr env elemSize arraySize p, idx) of
        (Some a, [i]) \<Rightarrow>
          (case eval_int env i of None \<Rightarrow> None
           | Some n \<Rightarrow> Some (a + signed_of (IntTypeWidth i) n * int elemSize))
      | (Some a, [z, i]) \<Rightarrow>
          (case (eval_int env z, eval_int env i) of
             (Some k, Some n) \<Rightarrow>
               Some (a + signed_of (IntTypeWidth z) k * int arraySize
                       + signed_of (IntTypeWidth i) n * int elemSize)
           | _ \<Rightarrow> None)
      | _ \<Rightarrow> None)"

text \<open>Modelled from the spec: the runtime helpers \<^verbatim>\<open>runtime.sliceBoundsCheck\<close> and
  \<^verbatim>\<open>runtime.sliceBoundsCheckLong\<close> that the emitted call reaches are not among the sources.
  The spec speaks of a bounds-check failure of a slice expression; a slice expression with
  bounds \<open>low\<close> and \<open>high\<close> on a capacity is in range when \<open>low \<le> high \<le> capacity\<close>, and the
  check fails (a run-time panic) otherwise.\<close>

definition sliceBoundsCheck :: "nat \<Rightarrow> nat \<Rightarrow> nat \<Rightarrow> error + unit" where
  "sliceBoundsCheck capacity low high =
     (if low \<le> high \<and> high \<le> capacity then Inr () else Inl (GoPanic ''slice out of range''))"

text \<open>Running the emitted bounds check, if there is one.\<close>

definition run_bounds_check :: "operands \<Rightarrow> (string \<times> llvm_int list) option \<Rightarrow> error + unit" where
  "run_bounds_check env check =
     (case check of
        None \<Rightarrow> Inr ()
      | Some (name, args) \<Rightarrow>
          (case map (eval_int env) args of
             [Some capacity, Some low, Some high] \<Rightarrow>
               if name = ''sliceBoundsCheck'' \<or> name = ''sliceBoundsCheckLong''
               then sliceBoundsCheck capacity low high
               else Inl (GoPanic ''unknown runtime call'')
           | _ \<Rightarrow> Inl (GoPanic ''undefined argument'')))"

text \<open>The slice value at run time: backing pointer, length and capacity.\<close>

fun eval_slice :: "operands \<Rightarrow> nat \<Rightarrow> nat \<Rightarrow> llvm_aggregate \<Rightarrow> (int \<times> nat \<times> nat) option" where
  "eval_slice env elemSize arraySize (SliceValue p l c) =
     (case (eval_ptr env elemSize arraySize p, eval_int env l, eval_int env c) of
        (Some a, Some n, Some k) \<Rightarrow> Some (a, n, k)
      | _ \<Rightarrow> None)"
| "eval_slice env elemSize arraySize (StringValue p l) = None"

text \<open>A nil slice as the operand \<open>s\<close>: every field of it is 0.\<close>

definition nil_slice_operands :: operands where
  "nil_slice_operands = \<lparr>local_of = (\<lambda>x. 0), field_of = (\<lambda>X i. 0), ptr_of = (\<lambda>X. 0)\<rparr>"

section \<open>compiler.go: the defer list (parseFunc, parseInstr case ssa.Defer)\<close>

text \<open>The deferred call of an \<^verbatim>\<open>ssa.Defer\<close> instruction, with its operands given lowered
  (\<open>'v\<close> is the type of lowered values): a call on an interface (the method's full name, the
  function pointer and the arguments that \<^verbatim>\<open>getInvokeCall\<close> returns), a call of a function
  (its link name and the arguments), an immediately applied closure (the closure value and
  the arguments), or any other kind of call.\<close>

datatype 'v defer_call =
    InvokeCall string 'v "'v list"
  | FunctionCall string "'v list"
  | MakeClosureCall 'v "'v list"
  | UncommonCall

text \<open>The fields put into a defer frame: the thunk, the value loaded into \<^verbatim>\<open>defer.next\<close>, and
  lowered values.\<close>

datatype 'v frame_field = Callback string | Next | Value 'v

text \<open>The instructions that touch the defer list. The registers \<^verbatim>\<open>deferPtr\<close>, \<^verbatim>\<open>defer.next\<close>
  and \<^verbatim>\<open>defer.alloca\<close> are implicit in them.\<close>

datatype 'v defer_instr =
    Alloca_deferPtr
  | Store_null_deferPtr
  | Load_defer_next
  | Alloca_defer_alloca
  | Store_frame "'v frame_field list"
  | Store_alloca_deferPtr

text \<open>\<open>parseFunc\<close>: the defer list pointer is created when \<^verbatim>\<open>frame.fn.Recover != nil\<close>.\<close>

definition parseFunc_deferPtr :: "bool \<Rightarrow> 'v defer_instr list" where
  "parseFunc_deferPtr hasRecover =
     (if hasRecover then [Alloca_deferPtr, Store_null_deferPtr] else [])"

text \<open>\<open>parseInstr\<close> on \<^verbatim>\<open>ssa.Defer\<close>; \<open>linkName\<close> is \<^verbatim>\<open>frame.fn.LinkName()\<close>. The
  operands of the call are given lowered, and the frame type is one that has a zero value, so
  the only error left is that of a call of another kind. The thunks that are registered on the
  way are not part of the list and are left out.\<close>

definition parseInstr_Defer :: "string \<Rightarrow> 'v defer_call \<Rightarrow> error + 'v defer_instr list" where
  "parseInstr_Defer linkName call =
     (case (case call of
              InvokeCall method fnPtr args \<Rightarrow>
                Inr ([Callback (method @ ''$defer''), Next, Value fnPtr] @ map Value args)
            | FunctionCall fn args \<Rightarrow>
                Inr ([Callback (fn @ ''$defer''), Next] @ map Value args)
            | MakeClosureCall closure args \<Rightarrow>
                Inr ([Callback (linkName @ ''$fpdefer''), Next, Value closure] @ map Value args)
            | UncommonCall \<Rightarrow> Inl (ErrorsNew ''todo: defer on uncommon function call type'')) of
        Inl err \<Rightarrow> Inl err
      | Inr values \<Rightarrow>
          Inr [Load_defer_next, Alloca_defer_alloca, Store_frame values, Store_alloca_deferPtr])"

text \<open>The instructions of a run of the function that executes the given defer sites in order
  (a site in a loop occurs once for each time it is executed) and no \<^verbatim>\<open>rundefers\<close>.\<close>

fun defer_sites :: "string \<Rightarrow> 'v defer_call list \<Rightarrow> error + 'v defer_instr list" where
  "defer_sites linkName [] = Inr []"
| "defer_sites linkName (c # cs) =
     (case parseInstr_Defer linkName c of
        Inl err \<Rightarrow> Inl err
      | Inr is \<Rightarrow>
          (case defer_sites linkName cs of Inl err \<Rightarrow> Inl err | Inr rest \<Rightarrow> Inr (is @ rest)))"

subsection \<open>Running the instructions\<close>

text \<open>Stack memory holds, at an address, a pointer or a defer frame (its fields at run time:
  a function, a pointer, a value). The null pointer is 0. \<^verbatim>\<open>alloca\<close> takes the next unused
  address \<open>sp\<close>. Loading from a place that holds no pointer has no defined result.\<close>

datatype 'v rt_field = RFun string | RPtr nat | RVal 'v

datatype 'v cell = PtrCell nat | FrameCell "'v rt_field list"

record 'v machine =
  mem :: "nat \<rightharpoonup> 'v cell"
  sp :: nat
  deferPtr :: nat
  defer_next :: nat
  defer_alloca :: nat

fun rt_of_field :: "nat \<Rightarrow> 'v frame_field \<Rightarrow> 'v rt_field" where
  "rt_of_field nxt (Callback f) = RFun f"
| "rt_of_field nxt Next = RPtr nxt"
| "rt_of_field nxt (Value v) = RVal v"

fun exec :: "'v defer_instr \<Rightarrow> 'v machine \<Rightarrow> 'v machine option" where
  "exec Alloca_deferPtr M = Some (M\<lparr>deferPtr := sp M, sp := sp M + 1\<rparr>)"
| "exec Store_null_deferPtr M = Some (M\<lparr>mem := (mem M)(deferPtr M \<mapsto> PtrCell 0)\<rparr>)"
| "exec Load_defer_next M =
     (case mem M (deferPtr M) of
        Some (PtrCell p) \<Rightarrow> Some (M\<lparr>defer_next := p\<rparr>)
      | _ \<Rightarrow> None)"
| "exec Alloca_defer_alloca M = Some (M\<lparr>defer_alloca := sp M, sp := sp M + 1\<rparr>)"
| "exec (Store_frame values) M =
     Some (M\<lparr>mem := (mem M)(defer_alloca M \<mapsto> FrameCell (map (rt_of_field (defer_next M)) values))\<rparr>)"
| "exec Store_alloca_deferPtr M =
     Some (M\<lparr>mem := (mem M)(deferPtr M \<mapsto> PtrCell (defer_alloca M))\<rparr>)"

fun run :: "'v defer_instr list \<Rightarrow> 'v machine \<Rightarrow> 'v machine option" where
  "run [] M = Some M"
| "run (i # is) M = (case exec i M of None \<Rightarrow> None | Some M' \<Rightarrow> run is M')"

text \<open>The machine on entry of the function: nothing allocated, the first free address is
  \<open>sp0\<close>.\<close>

definition entry_machine :: "nat \<Rightarrow> 'v machine" where
  "entry_machine sp0 =
     \<lparr>mem = Map.empty, sp = sp0, deferPtr = 0, defer_next = 0, defer_alloca = 0\<rparr>"

text \<open>The head of the defer list is what the slot \<^verbatim>\<open>deferPtr\<close> holds.\<close>

definition defer_head :: "'v machine \<Rightarrow> nat option" where
  "defer_head M = (case mem M (deferPtr M) of Some (PtrCell p) \<Rightarrow> Some p | _ \<Rightarrow> None)"

text \<open>\<open>defer_chain m p fs\<close>: from the pointer \<open>p\<close>, following the second field of each frame,
  the memory holds exactly the frames \<open>fs\<close> (each given by its thunk and its payload) and
  then the null pointer.\<close>

definition frame_at :: "(nat \<rightharpoonup> 'v cell) \<Rightarrow> nat \<Rightarrow> (string \<times> nat \<times> 'v rt_field list) option" where
  "frame_at m p =
     (case m p of
        Some (FrameCell (RFun thunk # RPtr nxt # payload)) \<Rightarrow> Some (thunk, nxt, payload)
      | _ \<Rightarrow> None)"

fun defer_chain :: "(nat \<rightharpoonup> 'v cell) \<Rightarrow> nat \<Rightarrow> (string \<times> 'v rt_field list) list \<Rightarrow> bool" where
  "defer_chain m p [] = (p = 0)"
| "defer_chain m p (f # fs) =
     (p \<noteq> 0 \<and>
      (case frame_at m p of
         Some (thunk, nxt, payload) \<Rightarrow> f = (thunk, payload) \<and> defer_chain m nxt fs
       | None \<Rightarrow> False))"

text \<open>The thunk and the payload that a defer site puts into its frame.\<close>

fun frame_of_call :: "string \<Rightarrow> 'v defer_call \<Rightarrow> string \<times> 'v rt_field list" where
  "frame_of_call linkName (InvokeCall method fnPtr args) =
     (method @ ''$defer'', RVal fnPtr # map RVal args)"
| "frame_of_call linkName (FunctionCall fn args) = (fn @ ''$defer'', map RVal args)"
| "frame_of_call linkName (MakeClosureCall closure args) =
     (linkName @ ''$fpdefer'', RVal closure # map RVal args)"
| "frame_of_call linkName UncommonCall = ([], [])"

text \<open>The state between defer sites: the slot holds the head \<open>h\<close>, from which the frames
  \<open>fs\<close> are chained, and nothing is allocated from \<open>sp\<close> on.\<close>

definition defer_inv :: "'v machine \<Rightarrow> nat \<Rightarrow> (string \<times> 'v rt_field list) list \<Rightarrow> bool" where
  "defer_inv M h fs \<longleftrightarrow>
     mem M (deferPtr M) = Some (PtrCell h) \<and> defer_chain (mem M) h fs \<and>
     (\<forall>a\<ge>sp M. mem M a = None) \<and> 0 < sp M"

section \<open>compiler.go: getInterpretedValue on a map literal (case ir.MapValue)\<close>

text \<open>A compile-time constant as far as the key handling reads it: \<^verbatim>\<open>constant.StringVal\<close> and
  \<^verbatim>\<open>constant.Uint64Val\<close>.\<close>

datatype constant_value = StringConst "byte list" | IntConst "64 word" | OtherConst

fun StringVal :: "constant_value \<Rightarrow> byte list" where
  "StringVal (StringConst s) = s"
| "StringVal c = []"

fun Uint64Val :: "constant_value \<Rightarrow> 64 word" where
  "Uint64Val (IntConst n) = n"
| "Uint64Val c = 0"

text \<open>An interpreted value: a constant of a type (\<^verbatim>\<open>ir.ConstValue\<close>, the type given by its
  underlying type) or any other kind of value.\<close>

datatype ir_value = ConstValue go_type constant_value | OtherValue string

definition UnsupportedMapKey :: "basic_kind \<Rightarrow> error" where
  "UnsupportedMapKey k = ErrorsNew (''todo: init: map key not implemented: '' @ basic_kind_String k)"

text \<open>The key buffer of an \<^verbatim>\<open>int\<close> key: \<open>size\<close> bytes of \<open>n\<close>, least significant first.\<close>

fun int_keyBuf :: "nat \<Rightarrow> 64 word \<Rightarrow> byte list" where
  "int_keyBuf 0 n = []"
| "int_keyBuf (Suc size') n = ucast n # int_keyBuf size' (drop_bit 8 n)"

text \<open>The statically initialized bucket \<open>{tophash[8], next, keys[8], values[8]}\<close>; a slot of
  keys or values that was never written holds the zero value (\<open>None\<close>). A bucket global is
  referred to by its position among the bucket globals that were created.\<close>

record 'v bucket =
  tophash :: "byte list"
  next_bucket :: "nat option"
  bucket_keys :: "'v option list"
  bucket_values :: "'v option list"

definition zero_bucket :: "'v bucket" where
  "zero_bucket = \<lparr>tophash = replicate 8 0, next_bucket = None,
                  bucket_keys = replicate 8 None, bucket_values = replicate 8 None\<rparr>"

text \<open>\<open>initMapNewBucket\<close>: \<open>bucketType\<close> is the outcome of lowering the key and value types and
  of building the zero bucket, with the two sizes; the new global is appended.\<close>

definition initMapNewBucket ::
  "error + (nat \<times> nat) \<Rightarrow> 'v bucket list \<Rightarrow> error + (nat \<times> nat \<times> nat \<times> 'v bucket list)" where
  "initMapNewBucket bucketType globals =
     (case bucketType of
        Inl err \<Rightarrow> Inl err
      | Inr (keySize, valueSize) \<Rightarrow>
          Inr (length globals, keySize, valueSize, globals @ [zero_bucket]))"

text \<open>The hashmap header \<open>{next, buckets, count, keySize, valueSize, bucketBits}\<close>; \<open>count\<close> is
  a \<^verbatim>\<open>lenType\<close> constant and the sizes are 8-bit constants.\<close>

record hashmap =
  hm_next :: "nat option"
  hm_buckets :: nat
  hm_count :: nat
  hm_keySize :: nat
  hm_valueSize :: nat
  hm_bucketBits :: nat

text \<open>The value returned: the zero \<^verbatim>\<open>llvm.Value{}\<close>, or the pointer to the hashmap global, given
  here with the bucket globals.\<close>

datatype 'v map_result = NilValue | HashmapGlobal hashmap "'v bucket list"

text \<open>The loop over the keys, at index \<open>i\<close> with the keys from \<open>i\<close> on. Parameters: \<open>interp\<close> is
  the recursive call of \<open>getInterpretedValue\<close> on a key or value; \<open>hashmapHash\<close> and
  \<open>hashmapTopHash\<close> are the two hash helpers (not among the sources); \<open>intSize\<close> is the alloc
  size of \<^verbatim>\<open>c.intType\<close>. The result \<open>None\<close> is the early \<^verbatim>\<open>return llvm.Value{}, nil\<close>.\<close>

fun MapValue_loop ::
  "(ir_value \<Rightarrow> error + 'v) \<Rightarrow> (byte list \<Rightarrow> 32 word) \<Rightarrow> (32 word \<Rightarrow> byte) \<Rightarrow> error + (nat \<times> nat)
     \<Rightarrow> nat \<Rightarrow> ir_value list \<Rightarrow> nat \<Rightarrow> ir_value list \<Rightarrow> 'v bucket list \<Rightarrow> nat
     \<Rightarrow> error + ('v bucket list) option" where
  "MapValue_loop interp hashmapHash hashmapTopHash bucketType intSize Values i [] globals bucketGlobal =
     Inr (Some globals)"
| "MapValue_loop interp hashmapHash hashmapTopHash bucketType intSize Values i (key # Keys) globals bucketGlobal =
     (case interp key of
        Inl err \<Rightarrow> Inr None
      | Inr llvmKey \<Rightarrow>
          if \<not> i < length Values then Inl (GoPanic ''index out of range'')
          else
            (case interp (Values ! i) of
               Inl err \<Rightarrow> Inr None
             | Inr llvmValue \<Rightarrow>
                 (case key of
                    OtherValue v \<Rightarrow>
                      Inl (GoPanic ''interface conversion: ir.Value is not *ir.ConstValue'')
                  | ConstValue typ constVal \<Rightarrow>
                      (case typ of
                         NotBasic t \<Rightarrow>
                           Inl (GoPanic ''interface conversion: types.Type is not *types.Basic'')
                       | Basic k \<Rightarrow>
                           (case (if k = String \<or> k = UntypedString then Inr (StringVal constVal)
                                  else if k = Int_kind then Inr (int_keyBuf intSize (Uint64Val constVal))
                                  else Inl (UnsupportedMapKey k)) of
                              Inl err \<Rightarrow> Inl err
                            | Inr keyBuf \<Rightarrow>
                                (let hash = hashmapHash keyBuf in
                                 case (if i mod 8 = 0 \<and> i \<noteq> 0 then
                                         (case initMapNewBucket bucketType globals of
                                            Inl err \<Rightarrow> Inl err
                                          | Inr (newBucketGlobal, _, _, globals) \<Rightarrow>
                                              Inr (globals[bucketGlobal :=
                                                     (globals ! bucketGlobal)
                                                       \<lparr>next_bucket := Some newBucketGlobal\<rparr>],
                                                   newBucketGlobal))
                                       else Inr (globals, bucketGlobal)) of
                                   Inl err \<Rightarrow> Inl err
                                 | Inr (globals, bucketGlobal) \<Rightarrow>
                                     (let tophashValue = hashmapTopHash hash;
                                          bucket = globals ! bucketGlobal;
                                          bucket = bucket\<lparr>tophash := (tophash bucket)[i mod 8 := tophashValue]\<rparr>;
                                          bucket = bucket\<lparr>bucket_keys := (bucket_keys bucket)[i mod 8 := Some llvmKey]\<rparr>;
                                          bucket = bucket\<lparr>bucket_values := (bucket_values bucket)[i mod 8 := Some llvmValue]\<rparr>
                                      in MapValue_loop interp hashmapHash hashmapTopHash bucketType intSize
                                           Values (i + 1) Keys
                                           (globals[bucketGlobal := bucket]) bucketGlobal)))))))"

text \<open>The case \<^verbatim>\<open>*ir.MapValue\<close> of \<open>getInterpretedValue\<close>; \<open>lenWidth\<close> is the width of
  \<^verbatim>\<open>c.lenType\<close>.\<close>

definition getInterpretedValue_MapValue ::
  "(ir_value \<Rightarrow> error + 'v) \<Rightarrow> (byte list \<Rightarrow> 32 word) \<Rightarrow> (32 word \<Rightarrow> byte) \<Rightarrow> error + (nat \<times> nat)
     \<Rightarrow> nat \<Rightarrow> nat \<Rightarrow> ir_value list \<Rightarrow> ir_value list \<Rightarrow> error + 'v map_result" where
  "getInterpretedValue_MapValue interp hashmapHash hashmapTopHash bucketType intSize lenWidth Keys Values =
     (case initMapNewBucket bucketType [] of
        Inl err \<Rightarrow> Inl err
      | Inr (firstBucketGlobal, keySize, valueSize, globals) \<Rightarrow>
          (case MapValue_loop interp hashmapHash hashmapTopHash bucketType intSize Values 0 Keys
                  globals firstBucketGlobal of
             Inl err \<Rightarrow> Inl err
           | Inr None \<Rightarrow> Inr NilValue
           | Inr (Some globals) \<Rightarrow>
               Inr (HashmapGlobal
                      \<lparr>hm_next = None, hm_buckets = firstBucketGlobal,
                        hm_count = length Keys mod 2 ^ lenWidth,
                        hm_keySize = keySize mod 2 ^ 8, hm_valueSize = valueSize mod 2 ^ 8,
                        hm_bucketBits = 0\<rparr>
                      globals)))"

text \<open>Concrete parameters to run the materialiser: constants are materialised as \<open>parseConst\<close>
  does for basic types, where a constant of kind \<^verbatim>\<open>complex64\<close> reaches the final
  \<^verbatim>\<open>todo: unknown constant\<close> branch; other values stand for themselves.\<close>

fun example_interp :: "ir_value \<Rightarrow> error + ir_value" where
  "example_interp (ConstValue (Basic Complex64) c) = Inl (ErrorsNew ''todo: unknown constant'')"
| "example_interp v = Inr v"

definition example_hashmapHash :: "byte list \<Rightarrow> 32 word" where
  "example_hashmapHash keyBuf = of_nat (length keyBuf) * 16777619"

definition example_hashmapTopHash :: "32 word \<Rightarrow> byte" where
  "example_hashmapTopHash hash = ucast (drop_bit 24 hash)"

text \<open>The keys the materialiser supports, and the key buffer that is hashed.\<close>

fun supported_key :: "ir_value \<Rightarrow> bool" where
  "supported_key (ConstValue (Basic k) c) = (k = String \<or> k = UntypedString \<or> k = Int_kind)"
| "supported_key v = False"

fun keyBuf_of :: "nat \<Rightarrow> ir_value \<Rightarrow> byte list" where
  "keyBuf_of intSize (ConstValue (Basic k) c) =
     (if k = String \<or> k = UntypedString then StringVal c else int_keyBuf intSize (Uint64Val c))"
| "keyBuf_of intSize v = []"

text \<open>One entry of the map as it is stored: the tophash byte, the key and the value.
  \<open>upd_bucket\<close> is the three \<^verbatim>\<open>ConstInsertValue\<close> of an entry at a slot.\<close>

definition upd_bucket :: "nat \<Rightarrow> byte \<times> 'v \<times> 'v \<Rightarrow> 'v bucket \<Rightarrow> 'v bucket" where
  "upd_bucket slot e bucket =
     bucket\<lparr>tophash := (tophash bucket)[slot := fst e],
            bucket_keys := (bucket_keys bucket)[slot := Some (fst (snd e))],
            bucket_values := (bucket_values bucket)[slot := Some (snd (snd e))]\<rparr>"

text \<open>The bucket globals after the entries \<open>ents\<close> have been inserted: as many buckets as the
  entries need (at least one), the last one being the current bucket \<open>bg\<close>; every bucket has
  eight slots and points to the bucket created after it, the last one to nothing; entry \<open>j\<close>
  is in slot \<open>j mod 8\<close> of bucket \<open>j div 8\<close>.\<close>

definition buckets_inv :: "(byte \<times> 'v \<times> 'v) list \<Rightarrow> 'v bucket list \<Rightarrow> nat \<Rightarrow> bool" where
  "buckets_inv ents globals bg \<longleftrightarrow>
     length globals = max 1 ((length ents + 7) div 8) \<and>
     bg = length globals - 1 \<and>
     (\<forall>b<length globals.
        length (tophash (globals ! b)) = 8 \<and>
        length (bucket_keys (globals ! b)) = 8 \<and>
        length (bucket_values (globals ! b)) = 8 \<and>
        next_bucket (globals ! b) = (if b + 1 < length globals then Some (b + 1) else None)) \<and>
     (\<forall>j<length ents.
        tophash (globals ! (j div 8)) ! (j mod 8) = fst (ents ! j) \<and>
        bucket_keys (globals ! (j div 8)) ! (j mod 8) = Some (fst (snd (ents ! j))) \<and>
        bucket_values (globals ! (j div 8)) ! (j mod 8) = Some (snd (snd (ents ! j))))"

text \<open>The entry stored for the key at index \<open>j\<close>, and the entries of the keys from index \<open>i\<close>
  on.\<close>

definition entry_of ::
  "(ir_value \<Rightarrow> error + 'v) \<Rightarrow> (byte list \<Rightarrow> 32 word) \<Rightarrow> (32 word \<Rightarrow> byte) \<Rightarrow> nat
     \<Rightarrow> ir_value list \<Rightarrow> nat \<Rightarrow> ir_value \<Rightarrow> byte \<times> 'v \<times> 'v" where
  "entry_of interp hashmapHash hashmapTopHash intSize Values j key =
     (hashmapTopHash (hashmapHash (keyBuf_of intSize key)),
      projr (interp key), projr (interp (Values ! j)))"

fun entries_from ::
  "(ir_value \<Rightarrow> error + 'v) \<Rightarrow> (byte list \<Rightarrow> 32 word) \<Rightarrow> (32 word \<Rightarrow> byte) \<Rightarrow> nat
     \<Rightarrow> ir_value list \<Rightarrow> nat \<Rightarrow> ir_value list \<Rightarrow> (byte \<times> 'v \<times> 'v) list" where
  "entries_from interp hashmapHash hashmapTopHash intSize Values i [] = []"
| "entries_from interp hashmapHash hashmapTopHash intSize Values i (key # Keys) =
     entry_of interp hashmapHash hashmapTopHash intSize Values i key
       # entries_from interp hashmapHash hashmapTopHash intSize Values (i + 1) Keys"

section \<open>Interface equality\<close>

text \<open>C8: \<open>interfaceEqual\<close> returns false for different typecodes, true when both typecodes are 0,
  and panics with "unimplemented: interface equality" for equal non-zero typecodes, so it
  returns no value there.\<close>

theorem interfaceEqual_cases:
  "(typecode x \<noteq> typecode y \<longrightarrow> interfaceEqual x y = Inr False) \<and>
   (typecode x = 0 \<and> typecode y = 0 \<longrightarrow> interfaceEqual x y = Inr True) \<and>
   (typecode x = typecode y \<and> typecode x \<noteq> 0 \<longrightarrow>
      interfaceEqual x y = Inl (GoPanic ''unimplemented: interface equality'') \<and>
      (\<forall>b. interfaceEqual x y \<noteq> Inr b))"
  by (simp add: interfaceEqual_def)

theorem interfaceEqual_cases_witness:
  "interfaceEqual \<lparr>typecode = 1, value = 0\<rparr> \<lparr>typecode = 2, value = 0\<rparr> = Inr False \<and>
   interfaceEqual \<lparr>typecode = 0, value = 0\<rparr> \<lparr>typecode = 0, value = 0\<rparr> = Inr True \<and>
   interfaceEqual \<lparr>typecode = 5, value = 3\<rparr> \<lparr>typecode = 5, value = 3\<rparr>
     = Inl (GoPanic ''unimplemented: interface equality'')"
  using interfaceEqual_cases [of "\<lparr>typecode = 1, value = 0\<rparr>" "\<lparr>typecode = 2, value = 0\<rparr>"]
    interfaceEqual_cases [of "\<lparr>typecode = 0, value = 0\<rparr>" "\<lparr>typecode = 0, value = 0\<rparr>"]
    interfaceEqual_cases [of "\<lparr>typecode = 5, value = 3\<rparr>" "\<lparr>typecode = 5, value = 3\<rparr>"]
  by simp


section \<open>String comparison and its lowering\<close>

lemma stringEqual_loop_iff:
  "length x = length y \<Longrightarrow>
   stringEqual_loop x y i \<longleftrightarrow> (\<forall>j. i \<le> j \<and> j < length x \<longrightarrow> x ! j = y ! j)"
proof (induction x y i rule: stringEqual_loop.induct)
  case (1 x y i)
  show ?case
  proof (cases "i < length x")
    case False
    then show ?thesis by (subst stringEqual_loop.simps) auto
  next
    case True
    show ?thesis
    proof (cases "x ! i = y ! i")
      case False
      with True show ?thesis by (subst stringEqual_loop.simps) auto
    next
      case eq: True
      have "stringEqual_loop x y i = stringEqual_loop x y (i + 1)"
        using True eq by (subst stringEqual_loop.simps) simp
      also have "\<dots> \<longleftrightarrow> (\<forall>j. i + 1 \<le> j \<and> j < length x \<longrightarrow> x ! j = y ! j)"
        using "1.IH" [OF True _ "1.prems"] eq by simp
      also have "\<dots> \<longleftrightarrow> (\<forall>j. i \<le> j \<and> j < length x \<longrightarrow> x ! j = y ! j)"
        using eq by (metis Suc_eq_plus1 Suc_leI le_eq_less_or_eq Suc_leD)
      finally show ?thesis .
    qed
  qed
qed

lemma stringEqual_iff: "stringEqual x y \<longleftrightarrow> x = y"
  by (auto simp: stringEqual_def stringEqual_loop_iff list_eq_iff_nth_eq)

lemma stringLess_loop_iff:
  "i \<le> l \<Longrightarrow> l = min (length x) (length y) \<Longrightarrow>
   stringLess_loop x y l i \<longleftrightarrow> (drop i x, drop i y) \<in> lexord {(a, b). a < b}"
proof (induction x y l i rule: stringLess_loop.induct)
  case (1 x y l i)
  show ?case
  proof (cases "i < l")
    case False
    with "1.prems" have il: "i = min (length x) (length y)" by (simp add: min_def split: if_splits)
    show ?thesis
    proof (cases "length x < length y")
      case True
      with il have "drop i x = []" "drop i y \<noteq> []" by auto
      with False True show ?thesis
        by (subst stringLess_loop.simps) (cases "drop i y", auto)
    next
      case ge: False
      with il have "drop i y = []" by auto
      with False ge show ?thesis
        by (subst stringLess_loop.simps) simp
    qed
  next
    case True
    with "1.prems" have ix: "i < length x" and iy: "i < length y" by auto
    have dx: "drop i x = x ! i # drop (i + 1) x" using ix by (simp add: Cons_nth_drop_Suc)
    have dy: "drop i y = y ! i # drop (i + 1) y" using iy by (simp add: Cons_nth_drop_Suc)
    consider (lt) "x ! i < y ! i" | (gt) "y ! i < x ! i" | (eq) "x ! i = y ! i"
      by (metis linorder_less_linear)
    then show ?thesis
    proof cases
      case lt
      with True show ?thesis by (subst stringLess_loop.simps) (simp add: dx dy)
    next
      case gt
      with True show ?thesis by (subst stringLess_loop.simps) (auto simp add: dx dy)
    next
      case eq
      have "stringLess_loop x y l i = stringLess_loop x y l (i + 1)"
        using True eq by (subst stringLess_loop.simps) simp
      also have "\<dots> \<longleftrightarrow> (drop (i + 1) x, drop (i + 1) y) \<in> lexord {(a, b). a < b}"
        using "1.IH" [OF True] eq True "1.prems" by simp
      finally show ?thesis using eq by (simp add: dx dy)
    qed
  qed
qed

lemma stringLess_iff: "stringLess x y \<longleftrightarrow> go_string_less x y"
  using stringLess_loop_iff [of 0 "min (length x) (length y)" x y]
  by (simp add: stringLess_def go_string_less_def Let_def min_def not_less split: if_splits)


lemma lowered_compare_EQL: "lowered_compare EQL x y = Some (VBool (x = y))"
  by (simp add: lowered_compare_def stringEqual_iff)

lemma lowered_compare_NEQ: "lowered_compare NEQ x y = Some (VBool (x \<noteq> y))"
  by (simp add: lowered_compare_def stringEqual_iff)

lemma lowered_compare_LSS: "lowered_compare LSS x y = Some (VBool (go_string_less x y))"
  by (simp add: lowered_compare_def stringLess_iff)

lemma lowered_compare_LEQ: "lowered_compare LEQ x y = Some (VBool (\<not> go_string_less y x))"
  by (simp add: lowered_compare_def stringLess_iff)

text \<open>The two remaining operators are lowered the other way round: \<^verbatim>\<open>x > y\<close> computes
  "not \<open>x < y\<close>" and \<^verbatim>\<open>x >= y\<close> computes \<open>y < x\<close>.\<close>

lemma lowered_compare_GTR: "lowered_compare GTR x y = Some (VBool (\<not> go_string_less x y))"
  by (simp add: lowered_compare_def stringLess_iff)

lemma lowered_compare_GEQ: "lowered_compare GEQ x y = Some (VBool (go_string_less y x))"
  by (simp add: lowered_compare_def stringLess_iff)

text \<open>C1: the lowered comparison of strings should equal Go's lexicographic comparison. On the
  equal strings "a" and "a" the lowering of \<^verbatim>\<open>x > y\<close> returns true although neither string is
  less than the other, and the lowering of \<^verbatim>\<open>x >= y\<close> returns false.\<close>

theorem lowered_compare_GTR_GEQ_equal_strings:
  "lowered_compare GTR [97] [97] = Some (VBool True) \<and>
   lowered_compare GEQ [97] [97] = Some (VBool False) \<and>
   \<not> go_string_less [97] [97]"
  by (simp add: lowered_compare_def stringLess_def stringLess_loop.simps go_string_less_def)


section \<open>Bounds-check emitter\<close>

text \<open>What the emitter does with an index that is narrower than the length: the extension is
  chosen by the negation of the signedness test.\<close>

lemma emitBoundsCheck_narrow_local:
  "w < wl \<Longrightarrow>
   emitBoundsCheck False intWidth (Local l wl) (Local i w) (Basic k) =
     Inr (Some (if wl > intWidth then ''lookupBoundsCheckLong'' else ''lookupBoundsCheck'',
                [Local l wl, if IsUnsigned k then SExt (Local i w) wl else ZExt (Local i w) wl]))"
  by (cases "IsUnsigned k") (simp_all add: emitBoundsCheck_def CreateZExt_def CreateSExt_def)

lemma emitBoundsCheck_constant_int8_elided:
  "emitBoundsCheck False 32 (ConstInt 300 32) (ConstInt 255 8) (Basic Int8) = Inr None"
  by (simp add: emitBoundsCheck_def CreateZExt_def CreateSExt_def signed_of_def)

text \<open>C2: an index narrower than the length type should be zero-extended when its Go type is
  unsigned and sign-extended when it is signed. For an \<^verbatim>\<open>int8\<close> index and a 32-bit length
  the emitter passes the zero extension of the index to the bounds check, and for a
  \<^verbatim>\<open>uint8\<close> index the sign extension.\<close>

theorem emitBoundsCheck_extension_inverted:
  "emitBoundsCheck False 32 (Local ''len'' 32) (Local ''i'' 8) (Basic Int8) =
     Inr (Some (''lookupBoundsCheck'', [Local ''len'' 32, ZExt (Local ''i'' 8) 32])) \<and>
   emitBoundsCheck False 32 (Local ''len'' 32) (Local ''i'' 8) (Basic Uint8) =
     Inr (Some (''lookupBoundsCheck'', [Local ''len'' 32, SExt (Local ''i'' 8) 32]))"
  by (simp add: emitBoundsCheck_def CreateZExt_def CreateSExt_def)

section \<open>mainWrapper\<close>

text \<open>C7: when the scheduler is needed, mainWrapper calls main.main with a null parent task and
  passes the returned handle to runtime.scheduler; otherwise it calls main.main with no
  arguments; in both cases it then returns void. (Stated for a compile in which attaching the
  debug information, if enabled, did not fail.)\<close>

theorem Compile_mainWrapper_body:
  "(Debug \<longrightarrow> debugInfo = None) \<Longrightarrow>
   Compile_mainWrapper Debug debugInfo needsScheduler mainPath =
     Inr (if needsScheduler
          then [CreateCall (mainPath @ ''.main'') [ConstPointerNull_i8ptr],
                CreateCall ''runtime.scheduler'' [ResultOf 0],
                CreateRetVoid]
          else [CreateCall (mainPath @ ''.main'') [], CreateRetVoid])"
  by (cases Debug; cases needsScheduler) (simp_all add: Compile_mainWrapper_def build_call_def)

theorem Compile_mainWrapper_body_witness:
  "Compile_mainWrapper False None True ''main'' =
     Inr [CreateCall ''main.main'' [ConstPointerNull_i8ptr],
          CreateCall ''runtime.scheduler'' [ResultOf 0], CreateRetVoid] \<and>
   Compile_mainWrapper True None False ''main'' =
     Inr [CreateCall ''main.main'' [], CreateRetVoid]"
  using Compile_mainWrapper_body [of False None True "''main''"]
        Compile_mainWrapper_body [of True None False "''main''"]
  by simp


section \<open>UTF-8 round trip\<close>

text \<open>A rune between 0 and a bound below \<open>2 ^ k\<close> has no bit set from position \<open>k\<close> on.\<close>

lemma rune_high_bits:
  fixes x c :: rune
  assumes "0 \<le>s x" "x \<le>s c" "sint c < 2 ^ k" "k \<le> n"
  shows "\<not> bit x n"
proof -
  have nonneg: "0 \<le> sint x" using assms(1) by (simp add: word_sle_eq)
  have "sint x < 2 ^ k" using assms(2,3) by (simp add: word_sle_eq)
  also have "(2::int) ^ k \<le> 2 ^ n" using assms(4) by simp
  finally have "sint x div 2 ^ n = 0" using nonneg by simp
  then have "\<not> bit (sint x) n" by (simp add: bit_iff_odd)
  then show ?thesis by (simp add: bit_sint_iff)
qed

lemma byte_eqI:
  fixes a b :: byte
  assumes "\<forall>n \<in> set [0, 1, 2, 3, 4, 5, 6, 7]. bit a n = bit b n"
  shows "a = b"
proof (rule bit_word_eqI)
  fix n assume "n < LENGTH(8)"
  then have "n \<in> {0, 1, 2, 3, 4, 5, 6, 7}" by auto
  with assms show "bit a n = bit b n" by auto
qed

lemma rune_eqI:
  fixes a b :: rune
  assumes "\<forall>n \<in> set [0, 1, 2, 3, 4, 5, 6, 7, 8, 9, 10, 11, 12, 13, 14, 15, 16, 17, 18, 19, 20,
             21, 22, 23, 24, 25, 26, 27, 28, 29, 30, 31]. bit a n = bit b n"
  shows "a = b"
proof (rule bit_word_eqI)
  fix n assume "n < LENGTH(32)"
  then have "n \<in> {0, 1, 2, 3, 4, 5, 6, 7, 8, 9, 10, 11, 12, 13, 14, 15, 16, 17, 18, 19, 20,
             21, 22, 23, 24, 25, 26, 27, 28, 29, 30, 31}"
    unfolding insert_iff empty_iff by simp presburger
  with assms show "bit a n = bit b n" by auto
qed

lemma decodeUTF8_one_byte:
  fixes x :: rune
  assumes hb: "\<forall>n\<ge>7. \<not> bit x n"
  shows "decodeUTF8 [byte_of_rune x] 0 = Some (x, 1)"
proof -
  define b1 where "b1 = byte_of_rune x"
  have c1: "b1 AND 0x80 = 0"
    unfolding b1_def by (rule byte_eqI) (simp add: bit_simps byte_of_rune_def hb)
  have r: "rune_of_byte b1 = x"
    unfolding b1_def
    by (rule rune_eqI) (simp add: bit_simps byte_of_rune_def rune_of_byte_def hb)
  show ?thesis
    unfolding b1_def [symmetric] by (simp add: decodeUTF8_def string_at_def c1 r)
qed

lemma decodeUTF8_two_bytes:
  fixes x :: rune
  assumes hb: "\<forall>n\<ge>11. \<not> bit x n"
  shows "decodeUTF8 [0xc0 OR byte_of_rune (signed_drop_bit 6 x),
                     0x80 OR byte_of_rune (x AND 0x3f)] 0 = Some (x, 2)"
proof -
  define b1 where "b1 = 0xc0 OR byte_of_rune (signed_drop_bit 6 x)"
  define b2 where "b2 = 0x80 OR byte_of_rune (x AND 0x3f)"
  have c1: "b1 AND 0x80 = 0x80"
    unfolding b1_def by (rule byte_eqI) (simp add: bit_simps byte_of_rune_def hb)
  have c2: "b1 AND 0xe0 = 0xc0"
    unfolding b1_def by (rule byte_eqI) (simp add: bit_simps byte_of_rune_def hb)
  have r: "push_bit 6 (rune_of_byte (b1 AND 0x1f)) OR (rune_of_byte b2 AND 0x3f) = x"
    unfolding b1_def b2_def
    by (rule rune_eqI) (simp add: bit_simps byte_of_rune_def rune_of_byte_def hb)
  show ?thesis
    unfolding b1_def [symmetric] b2_def [symmetric]
    by (simp add: decodeUTF8_def string_at_def c1 c2 r)
qed


lemma decodeUTF8_three_bytes:
  fixes x :: rune
  assumes hb: "\<forall>n\<ge>16. \<not> bit x n"
  shows "decodeUTF8 [0xe0 OR byte_of_rune (signed_drop_bit 12 x),
                     0x80 OR byte_of_rune (signed_drop_bit 6 x AND 0x3f),
                     0x80 OR byte_of_rune (signed_drop_bit 0 x AND 0x3f)] 0 = Some (x, 3)"
proof -
  define b1 where "b1 = 0xe0 OR byte_of_rune (signed_drop_bit 12 x)"
  define b2 where "b2 = 0x80 OR byte_of_rune (signed_drop_bit 6 x AND 0x3f)"
  define b3 where "b3 = 0x80 OR byte_of_rune (signed_drop_bit 0 x AND 0x3f)"
  have c1: "b1 AND 0x80 = 0x80"
    unfolding b1_def by (rule byte_eqI) (simp add: bit_simps byte_of_rune_def hb)
  have c2: "b1 AND 0xe0 = 0xe0"
    unfolding b1_def by (rule byte_eqI) (simp add: bit_simps byte_of_rune_def hb)
  have c3: "b1 AND 0xf0 = 0xe0"
    unfolding b1_def by (rule byte_eqI) (simp add: bit_simps byte_of_rune_def hb)
  have r: "push_bit 12 (rune_of_byte (b1 AND 0x0f))
             OR push_bit 6 (rune_of_byte b2 AND 0x3f)
             OR (rune_of_byte b3 AND 0x3f) = x"
    unfolding b1_def b2_def b3_def
    by (rule rune_eqI) (simp add: bit_simps byte_of_rune_def rune_of_byte_def hb)
  show ?thesis
    unfolding b1_def [symmetric] b2_def [symmetric] b3_def [symmetric]
    by (simp add: decodeUTF8_def string_at_def c1 c2 c3 r del: push_bit_and)
qed

lemma decodeUTF8_four_bytes:
  fixes x :: rune
  assumes hb: "\<forall>n\<ge>21. \<not> bit x n"
  shows "decodeUTF8 [0xf0 OR byte_of_rune (signed_drop_bit 18 x),
                     0x80 OR byte_of_rune (signed_drop_bit 12 x AND 0x3f),
                     0x80 OR byte_of_rune (signed_drop_bit 6 x AND 0x3f),
                     0x80 OR byte_of_rune (signed_drop_bit 0 x AND 0x3f)] 0 = Some (x, 4)"
proof -
  define b1 where "b1 = 0xf0 OR byte_of_rune (signed_drop_bit 18 x)"
  define b2 where "b2 = 0x80 OR byte_of_rune (signed_drop_bit 12 x AND 0x3f)"
  define b3 where "b3 = 0x80 OR byte_of_rune (signed_drop_bit 6 x AND 0x3f)"
  define b4 where "b4 = 0x80 OR byte_of_rune (signed_drop_bit 0 x AND 0x3f)"
  have c1: "b1 AND 0x80 = 0x80"
    unfolding b1_def by (rule byte_eqI) (simp add: bit_simps byte_of_rune_def hb)
  have c2: "b1 AND 0xe0 = 0xe0"
    unfolding b1_def by (rule byte_eqI) (simp add: bit_simps byte_of_rune_def hb)
  have c3: "b1 AND 0xf0 = 0xf0"
    unfolding b1_def by (rule byte_eqI) (simp add: bit_simps byte_of_rune_def hb)
  have c4: "b1 AND 0xf8 = 0xf0"
    unfolding b1_def by (rule byte_eqI) (simp add: bit_simps byte_of_rune_def hb)
  have r: "push_bit 18 (rune_of_byte (b1 AND 0x07))
             OR push_bit 12 (rune_of_byte b2 AND 0x3f)
             OR push_bit 6 (rune_of_byte b3 AND 0x3f)
             OR (rune_of_byte b4 AND 0x3f) = x"
    unfolding b1_def b2_def b3_def b4_def
    by (rule rune_eqI) (simp add: bit_simps byte_of_rune_def rune_of_byte_def hb)
  show ?thesis
    unfolding b1_def [symmetric] b2_def [symmetric] b3_def [symmetric] b4_def [symmetric]
    by (simp add: decodeUTF8_def string_at_def c1 c2 c3 c4 r del: push_bit_and)
qed

text \<open>C9: for every rune \<open>x\<close> with \<open>0 \<le> x \<le> 0x10ffff\<close>, \<open>encodeUTF8 x\<close> returns a length between
  1 and 4, and \<open>decodeUTF8\<close> at index 0 of the first \<open>length\<close> bytes of the array returns
  \<open>(x, length)\<close>.\<close>

theorem encodeUTF8_decodeUTF8_roundtrip:
  fixes x :: rune
  assumes "0 \<le>s x" and "x \<le>s 0x10ffff"
  shows "case encodeUTF8 x of (array, n) \<Rightarrow>
           1 \<le> n \<and> n \<le> 4 \<and>
           decodeUTF8 (take (unat n) array) 0 = Some (x, n)"
proof -
  consider (one) "x \<le>s 0x7f"
    | (two) "\<not> x \<le>s 0x7f" "x \<le>s 0x7ff"
    | (three) "\<not> x \<le>s 0x7f" "\<not> x \<le>s 0x7ff" "x \<le>s 0xffff"
    | (four) "\<not> x \<le>s 0x7f" "\<not> x \<le>s 0x7ff" "\<not> x \<le>s 0xffff"
    by blast
  then show ?thesis
  proof cases
    case one
    have hb: "\<forall>n\<ge>7. \<not> bit x n"
      using rune_high_bits [OF assms(1) one, of 7] by simp
    show ?thesis
      using one decodeUTF8_one_byte [OF hb] by (simp add: encodeUTF8_def)
  next
    case two
    have hb: "\<forall>n\<ge>11. \<not> bit x n"
      using rune_high_bits [OF assms(1) two(2), of 11] by simp
    show ?thesis
      using two decodeUTF8_two_bytes [OF hb] by (simp add: encodeUTF8_def)
  next
    case three
    have hb: "\<forall>n\<ge>16. \<not> bit x n"
      using rune_high_bits [OF assms(1) three(3), of 16] by simp
    show ?thesis
      using three decodeUTF8_three_bytes [OF hb] by (simp add: encodeUTF8_def)
  next
    case four
    have hb: "\<forall>n\<ge>21. \<not> bit x n"
      using rune_high_bits [OF assms(1) assms(2), of 21] by simp
    show ?thesis
      using four assms(2) decodeUTF8_four_bytes [OF hb] by (simp add: encodeUTF8_def)
  qed
qed

theorem encodeUTF8_decodeUTF8_roundtrip_witness:
  "(0::rune) \<le>s 0x20AC \<and> (0x20AC::rune) \<le>s 0x10ffff \<and>
   encodeUTF8 0x20AC = ([0xE2, 0x82, 0xAC, 0], 3) \<and>
   decodeUTF8 (take (unat (3::lenType)) [0xE2, 0x82, 0xAC, 0]) 0 = Some (0x20AC, 3)"
proof -
  have h1: "(0::rune) \<le>s 0x20AC" by (simp add: word_sle_eq)
  have h2: "(0x20AC::rune) \<le>s 0x10ffff" by (simp add: word_sle_eq)
  have e: "encodeUTF8 0x20AC = ([0xE2, 0x82, 0xAC, 0], 3)"
    by (simp add: encodeUTF8_def byte_of_rune_def word_sle_eq)
  show ?thesis
    using h1 h2 e encodeUTF8_decodeUTF8_roundtrip [OF h1 h2] by simp
qed


section \<open>String concatenation\<close>













section \<open>Function prologue of blocking functions\<close>

lemma lower_params_prefix:
  "lower_params g e ps acc = Inr r \<Longrightarrow> \<exists>rest. r = acc @ rest"
proof (induction ps arbitrary: acc)
  case Nil
  then show ?case by simp
next
  case (Cons p ps)
  then show ?case by (cases "g p") fastforce+
qed

lemma lower_params_total:
  "\<forall>p \<in> set ps. \<exists>t. g p = Inr t \<Longrightarrow> \<exists>r. lower_params g e ps acc = Inr r"
proof (induction ps arbitrary: acc)
  case Nil
  then show ?case by simp
next
  case (Cons p ps)
  then obtain t where "g p = Inr t" by auto
  with Cons show ?case by simp
qed

lemma attachDebugInfoRaw_total:
  "\<forall>p \<in> set ps. \<exists>t. g p = Inr t \<Longrightarrow> attachDebugInfoRaw g dt ps = None"
proof (induction ps arbitrary: dt)
  case Nil
  then show ?case by simp
next
  case (Cons p ps)
  then obtain t where "g p = Inr t" by auto
  with Cons show ?case by simp
qed

lemma blocking_results_rejected:
  "Results f \<noteq> [] \<Longrightarrow> parseFuncDecl g e True nc ad dt md f = Inl UnsupportedBlockingReturn"
  by (simp add: parseFuncDecl_def)

lemma blocking_declaration_shape:
  assumes "parseFuncDecl g e True nc ad dt md f = Inr (fr, md')" and "md (LinkName f) = None"
  shows "\<exists>ps. LLVMFn fr = (LinkName f, FunctionType i8ptrType (i8ptrType # ps)) \<and>
              md' (LinkName f) = Some (FunctionType i8ptrType (i8ptrType # ps))"
proof -
  from assms(1) have res: "Results f = []"
    by (auto simp: parseFuncDecl_def split: if_splits)
  from assms(1) res obtain pts where pts: "lower_params g e (Params f) [i8ptrType] = Inr pts"
    by (cases "lower_params g e (Params f) [i8ptrType]") (auto simp: parseFuncDecl_def)
  from lower_params_prefix [OF pts] obtain rest where rest: "pts = i8ptrType # rest" by auto
  from assms res pts rest show ?thesis
    by (cases "if ad then attachDebugInfoRaw g dt (Params f) else None"; cases nc)
       (auto simp: parseFuncDecl_def Let_def)
qed

lemma blocking_declaration_reused:
  assumes "parseFuncDecl g e True nc ad dt md f = Inr (fr, md')" and "md (LinkName f) = Some t"
  shows "LLVMFn fr = (LinkName f, t) \<and> md' = md"
proof -
  from assms(1) have res: "Results f = []"
    by (auto simp: parseFuncDecl_def split: if_splits)
  from assms(1) res obtain pts where pts: "lower_params g e (Params f) [i8ptrType] = Inr pts"
    by (cases "lower_params g e (Params f) [i8ptrType]") (auto simp: parseFuncDecl_def)
  from assms res pts show ?thesis
    by (cases "if ad then attachDebugInfoRaw g dt (Params f) else None"; cases nc)
       (auto simp: parseFuncDecl_def Let_def)
qed

lemma blocking_no_results_succeeds:
  assumes "Results f = []" and "\<forall>p \<in> set (Params f). \<exists>t. g p = Inr t"
  shows "\<exists>fr md'. parseFuncDecl g e True nc ad dt md f = Inr (fr, md')"
proof -
  from lower_params_total [OF assms(2)] obtain pts
    where pts: "lower_params g e (Params f) [i8ptrType] = Inr pts" by blast
  have dbg: "(if ad then attachDebugInfoRaw g dt (Params f) else None) = None"
    using attachDebugInfoRaw_total [OF assms(2)] by simp
  from pts assms(1) show ?thesis
    by (cases "md (LinkName f)") (auto simp: parseFuncDecl_def Let_def dbg)
qed

text \<open>C3 as stated fails in two ways. A blocking function whose link name is already declared
  in the module keeps that declaration: here \<^verbatim>\<open>main.sleeper\<close>, declared before with the type
  \<open>void ()\<close>, gets neither a byte-pointer return type nor a parameter. And a blocking function
  without results does fail when a parameter type does not lower: here a parameter of the
  basic type \<^verbatim>\<open>untyped nil\<close>, which \<open>getLLVMType\<close> does not know.\<close>

theorem parseFuncDecl_blocking_counterexample:
  "parseFuncDecl (getLLVMType_Basic 32) example_expand True False False []
     [''main.sleeper'' \<mapsto> FunctionType VoidType []]
     \<lparr>LinkName = ''main.sleeper'', Results = [], Params = []\<rparr>
     = Inr (\<lparr>LLVMFn = (''main.sleeper'', FunctionType VoidType []), blocking = True\<rparr>,
            [''main.sleeper'' \<mapsto> FunctionType VoidType []]) \<and>
   parseFuncDecl (getLLVMType_Basic 32) example_expand True False False [] Map.empty
     \<lparr>LinkName = ''main.waiter'', Results = [], Params = [UntypedNil]\<rparr>
     = Inl (ErrorsNew ''todo: unknown basic type: untyped nil'')"
  by (simp add: parseFuncDecl_def Let_def)

text \<open>C3, amended: a blocking function with a non-empty result tuple (so, in particular, with
  several results) fails with \<open>UnsupportedBlockingReturn\<close>; a blocking function with no
  results does not fail when each of its parameter types lowers; whenever a declaration is
  produced for a blocking function whose link name is not yet declared in the module, its
  return type is the byte pointer and its leading parameter is the byte pointer; and when the
  link name is already declared, that declaration is kept as it is.\<close>

theorem parseFuncDecl_blocking:
  "(Results f \<noteq> [] \<longrightarrow>
      parseFuncDecl g e True nc ad dt md f = Inl UnsupportedBlockingReturn) \<and>
   (Results f = [] \<and> (\<forall>p \<in> set (Params f). \<exists>t. g p = Inr t) \<longrightarrow>
      (\<exists>fr md'. parseFuncDecl g e True nc ad dt md f = Inr (fr, md'))) \<and>
   (\<forall>fr md'. parseFuncDecl g e True nc ad dt md f = Inr (fr, md') \<and> md (LinkName f) = None \<longrightarrow>
      (\<exists>ps. LLVMFn fr = (LinkName f, FunctionType i8ptrType (i8ptrType # ps)) \<and>
            md' (LinkName f) = Some (FunctionType i8ptrType (i8ptrType # ps)))) \<and>
   (\<forall>fr md' t. parseFuncDecl g e True nc ad dt md f = Inr (fr, md') \<and> md (LinkName f) = Some t \<longrightarrow>
      LLVMFn fr = (LinkName f, t) \<and> md' = md)"
  using blocking_results_rejected [of f g e nc ad dt md]
    blocking_no_results_succeeds [of f g e nc ad dt md]
    blocking_declaration_shape [of g e nc ad dt md f]
    blocking_declaration_reused [of g e nc ad dt md f]
  by blast

theorem parseFuncDecl_blocking_witness:
  "parseFuncDecl (getLLVMType_Basic 32) example_expand True False True [] Map.empty
     \<lparr>LinkName = ''main.pair'', Results = [Int32, Int32], Params = []\<rparr>
     = Inl UnsupportedBlockingReturn \<and>
   getLLVMType_Basic 32 Int64 = Inr (IntType 64) \<and>
   parseFuncDecl (getLLVMType_Basic 32) example_expand True False True [] Map.empty
     \<lparr>LinkName = ''main.sleeper'', Results = [], Params = [Int64]\<rparr>
     = Inr (\<lparr>LLVMFn = (''main.sleeper'', FunctionType i8ptrType [i8ptrType, IntType 64]),
             blocking = True\<rparr>,
            [''main.sleeper'' \<mapsto> FunctionType i8ptrType [i8ptrType, IntType 64]]) \<and>
   parseFuncDecl (getLLVMType_Basic 32) example_expand True False True []
     [''main.sleeper'' \<mapsto> FunctionType VoidType []]
     \<lparr>LinkName = ''main.sleeper'', Results = [], Params = [Int64]\<rparr>
     = Inr (\<lparr>LLVMFn = (''main.sleeper'', FunctionType VoidType []), blocking = True\<rparr>,
            [''main.sleeper'' \<mapsto> FunctionType VoidType []])"
  using parseFuncDecl_blocking [where g = "getLLVMType_Basic 32" and e = example_expand
      and nc = False and ad = True and dt = "[]" and md = Map.empty
      and f = "\<lparr>LinkName = ''main.pair'', Results = [Int32, Int32], Params = []\<rparr>"]
    parseFuncDecl_blocking [where g = "getLLVMType_Basic 32" and e = example_expand
      and nc = False and ad = True and dt = "[]" and md = Map.empty
      and f = "\<lparr>LinkName = ''main.sleeper'', Results = [], Params = [Int64]\<rparr>"]
    parseFuncDecl_blocking [where g = "getLLVMType_Basic 32" and e = example_expand
      and nc = False and ad = True and dt = "[]"
      and md = "[''main.sleeper'' \<mapsto> FunctionType VoidType []]"
      and f = "\<lparr>LinkName = ''main.sleeper'', Results = [], Params = [Int64]\<rparr>"]
  by (simp add: parseFuncDecl_def Let_def example_expand_def)


section \<open>Slicing a nil slice\<close>

lemma parseExpr_Slice_nil_emitted:
  "parseExpr_Slice False 32 lenWidth None ''s'' SliceType (Some (ConstInt 0 32)) (Some (ConstInt 0 32))
     = Inr (Some (''sliceBoundsCheck'', [ExtractValue ''s'' 2 lenWidth, ConstInt 0 32, ConstInt 0 32]),
            if TypeAllocSize_int 32 > TypeAllocSize_int lenWidth
            then SliceValue (GEP (ExtractValuePtr ''s'' 0) [Trunc (ConstInt 0 32) lenWidth])
                   (Sub (Trunc (ConstInt 0 32) lenWidth) (Trunc (ConstInt 0 32) lenWidth))
                   (Sub (ExtractValue ''s'' 2 lenWidth) (Trunc (ConstInt 0 32) lenWidth))
            else SliceValue (GEP (ExtractValuePtr ''s'' 0) [ConstInt 0 32])
                   (Sub (ConstInt 0 32) (ConstInt 0 32))
                   (Sub (ExtractValue ''s'' 2 lenWidth) (ConstInt 0 32)))"
  by (simp add: parseExpr_Slice_def emitSliceBoundsCheck_def Let_def)

text \<open>C6: the slice expression \<^verbatim>\<open>s[0:0]\<close> of a nil slice \<open>s\<close> (null backing pointer, length 0,
  capacity 0) yields a slice with a null backing pointer, length 0 and capacity 0, and the
  emitted slice-bounds check, on capacity 0, low 0 and high 0, does not fail.\<close>

theorem slice_of_nil_slice:
  "case parseExpr_Slice noBounds 32 lenWidth None ''s'' SliceType
          (Some (ConstInt 0 32)) (Some (ConstInt 0 32)) of
     Inl e \<Rightarrow> False
   | Inr (check, v) \<Rightarrow>
       (\<not> noBounds \<longrightarrow>
          check = Some (''sliceBoundsCheck'',
                        [ExtractValue ''s'' 2 lenWidth, ConstInt 0 32, ConstInt 0 32]) \<and>
          map (eval_int nil_slice_operands) (snd (the check)) = [Some 0, Some 0, Some 0]) \<and>
       run_bounds_check nil_slice_operands check = Inr () \<and>
       eval_slice nil_slice_operands elemSize arraySize v = Some (0, 0, 0)"
  by (cases noBounds; cases "TypeAllocSize_int 32 > TypeAllocSize_int lenWidth")
     (simp_all add: parseExpr_Slice_def emitSliceBoundsCheck_def Let_def run_bounds_check_def
        sliceBoundsCheck_def nil_slice_operands_def signed_of_def)


theorem slice_of_nil_slice_witness:
  "run_bounds_check nil_slice_operands
     (Some (''sliceBoundsCheck'', [ExtractValue ''s'' 2 32, ConstInt 0 32, ConstInt 0 32])) = Inr () \<and>
   eval_slice nil_slice_operands 4 0
     (SliceValue (GEP (ExtractValuePtr ''s'' 0) [ConstInt 0 32])
        (Sub (ConstInt 0 32) (ConstInt 0 32))
        (Sub (ExtractValue ''s'' 2 32) (ConstInt 0 32))) = Some (0, 0, 0)"
  using slice_of_nil_slice [of False 32 4 0]
  by (simp add: parseExpr_Slice_nil_emitted TypeAllocSize_int_def)


section \<open>The defer list\<close>

lemma frame_at_not_frame:
  "frame_at m p = Some x \<Longrightarrow> \<forall>vs. m a \<noteq> Some (FrameCell vs) \<Longrightarrow> p \<noteq> a"
  by (auto simp: frame_at_def split: option.splits cell.splits)

lemma defer_chain_update:
  "defer_chain m p fs \<Longrightarrow> \<forall>vs. m a \<noteq> Some (FrameCell vs) \<Longrightarrow> defer_chain (m(a \<mapsto> c)) p fs"
proof (induction fs arbitrary: p)
  case Nil
  then show ?case by simp
next
  case (Cons f fs)
  from Cons.prems(1) obtain thunk nxt payload where
    p: "p \<noteq> 0" "frame_at m p = Some (thunk, nxt, payload)"
       "f = (thunk, payload)" "defer_chain m nxt fs"
    by (auto split: option.splits)
  from p(2) Cons.prems(2) have "p \<noteq> a" by (rule frame_at_not_frame)
  with p(2) have fa: "frame_at (m(a \<mapsto> c)) p = Some (thunk, nxt, payload)"
    by (simp add: frame_at_def)
  have ih: "defer_chain (m(a \<mapsto> c)) nxt fs"
    by (rule Cons.IH [OF p(4) Cons.prems(2)])
  show ?case
    unfolding defer_chain.simps fa using p(1,3) ih by simp
qed

lemma defer_chain_unique:
  "defer_chain m p fs \<Longrightarrow> defer_chain m p fs' \<Longrightarrow> fs = fs'"
proof (induction fs arbitrary: p fs')
  case Nil
  then show ?case by (cases fs') auto
next
  case (Cons f fs)
  from Cons.prems(1) obtain thunk nxt payload where
    p: "p \<noteq> 0" "frame_at m p = Some (thunk, nxt, payload)"
       "f = (thunk, payload)" "defer_chain m nxt fs"
    by (auto split: option.splits)
  from p(1) Cons.prems(2) obtain f' fs'' where fs': "fs' = f' # fs''" by (cases fs') auto
  with Cons.prems(2) p have "f' = f" "defer_chain m nxt fs''" by auto
  with Cons.IH [OF p(4)] fs' show ?case by simp
qed

lemma run_append:
  "run (xs @ ys) M = (case run xs M of None \<Rightarrow> None | Some M' \<Rightarrow> run ys M')"
  by (induction xs arbitrary: M) (auto split: option.splits)

lemma entry_inv:
  assumes "0 < sp0"
  shows "\<exists>M. run (parseFunc_deferPtr True) (entry_machine sp0) = Some M \<and> defer_inv M 0 []"
  using assms by (simp add: parseFunc_deferPtr_def entry_machine_def defer_inv_def)

lemma parseInstr_Defer_values:
  assumes "parseInstr_Defer ln c = Inr site"
  shows "\<exists>values. site = [Load_defer_next, Alloca_defer_alloca, Store_frame values, Store_alloca_deferPtr]
           \<and> (\<forall>h. map (rt_of_field h) values
                    = RFun (fst (frame_of_call ln c)) # RPtr h # snd (frame_of_call ln c))"
  using assms by (cases c) (auto simp: parseInstr_Defer_def comp_def)

lemma site_inv:
  assumes "parseInstr_Defer ln c = Inr site" and "defer_inv M h fs"
  shows "\<exists>M' h'. run site M = Some M' \<and> defer_inv M' h' (frame_of_call ln c # fs)"
proof -
  from parseInstr_Defer_values [OF assms(1)] obtain vals where
    site: "site = [Load_defer_next, Alloca_defer_alloca, Store_frame vals, Store_alloca_deferPtr]"
    and vs: "\<And>h. map (rt_of_field h) vals
                = RFun (fst (frame_of_call ln c)) # RPtr h # snd (frame_of_call ln c)"
    by blast
  from assms(2) have slot: "mem M (deferPtr M) = Some (PtrCell h)"
    and chain: "defer_chain (mem M) h fs"
    and free: "\<forall>a\<ge>sp M. mem M a = None" and pos: "0 < sp M"
    by (simp_all add: defer_inv_def)
  define a where "a = sp M"
  define fr where "fr = FrameCell (RFun (fst (frame_of_call ln c)) # RPtr h # snd (frame_of_call ln c))"
  define m1 where "m1 = (mem M)(a \<mapsto> fr)"
  define m2 where "m2 = m1(deferPtr M \<mapsto> PtrCell a)"
  define M' where "M' = M\<lparr>defer_next := h, defer_alloca := a, sp := a + 1, mem := m2\<rparr>"
  have fresh: "mem M a = None" using free by (simp add: a_def)
  with slot have ne: "deferPtr M \<noteq> a" by auto
  have r: "run site M = Some M'"
    by (simp add: site slot vs M'_def m2_def m1_def fr_def a_def)
  have c1: "defer_chain m1 h fs"
    unfolding m1_def by (rule defer_chain_update [OF chain]) (simp add: fresh)
  have "defer_chain m1 a (frame_of_call ln c # fs)"
    using c1 pos by (simp add: m1_def fr_def a_def frame_at_def)
  then have c2: "defer_chain m2 a (frame_of_call ln c # fs)"
    unfolding m2_def by (rule defer_chain_update) (simp add: m1_def ne slot)
  have dlt: "deferPtr M < sp M"
    using slot free by (metis not_less option.distinct(1))
  have "defer_inv M' a (frame_of_call ln c # fs)"
    using c2 free pos ne dlt by (simp add: defer_inv_def M'_def m2_def m1_def a_def)
  with r show ?thesis by blast
qed

lemma sites_inv:
  "defer_sites ln cs = Inr sites \<Longrightarrow> defer_inv M h fs \<Longrightarrow>
   \<exists>M' h'. run sites M = Some M' \<and> defer_inv M' h' (rev (map (frame_of_call ln) cs) @ fs)"
proof (induction cs arbitrary: sites M h fs)
  case Nil
  then show ?case by auto
next
  case (Cons c cs)
  from Cons.prems(1) obtain is1 is2 where
    s1: "parseInstr_Defer ln c = Inr is1" and s2: "defer_sites ln cs = Inr is2"
    and sites: "sites = is1 @ is2"
    by (auto split: sum.splits)
  from site_inv [OF s1 Cons.prems(2)] obtain M1 h1 where
    r1: "run is1 M = Some M1" and i1: "defer_inv M1 h1 (frame_of_call ln c # fs)" by blast
  from Cons.IH [OF s2 i1] obtain M2 h2 where
    r2: "run is2 M1 = Some M2"
    and i2: "defer_inv M2 h2 (rev (map (frame_of_call ln) cs) @ frame_of_call ln c # fs)"
    by blast
  from r1 r2 have "run sites M = Some M2" by (simp add: sites run_append)
  with i2 show ?case by auto
qed

text \<open>C5: in a function that can recover, the head slot holds null after entry, and after the
  defer sites \<open>calls\<close> have been executed in this order (and no \<^verbatim>\<open>rundefers\<close>), the head
  points to a chain of exactly \<open>length calls\<close> frames, those of the calls in reverse order of
  execution, each frame's next field being the head it replaced.\<close>

theorem defer_list_reverse_chain:
  fixes calls :: "'v defer_call list"
  assumes "0 < sp0" and "defer_sites linkName calls = Inr sites"
  shows "(\<exists>M0 :: 'v machine. run (parseFunc_deferPtr True) (entry_machine sp0) = Some M0 \<and>
               defer_head M0 = Some 0) \<and>
         (\<exists>M h. run (parseFunc_deferPtr True @ sites) (entry_machine sp0) = Some M \<and>
                defer_head M = Some h \<and>
                defer_chain (mem M) h (rev (map (frame_of_call linkName) calls)) \<and>
                (\<forall>fs. defer_chain (mem M) h fs \<longrightarrow>
                      fs = rev (map (frame_of_call linkName) calls) \<and> length fs = length calls))"
proof -
  from entry_inv [OF assms(1)] obtain M0 :: "'v machine" where
    r0: "run (parseFunc_deferPtr True) (entry_machine sp0) = Some M0" and i0: "defer_inv M0 0 []"
    by blast
  from i0 have h0: "defer_head M0 = Some 0" by (simp add: defer_inv_def defer_head_def)
  from sites_inv [OF assms(2) i0] obtain M h where
    r: "run sites M0 = Some M" and i: "defer_inv M h (rev (map (frame_of_call linkName) calls) @ [])"
    by blast
  from i have hd: "defer_head M = Some h"
    and ch: "defer_chain (mem M) h (rev (map (frame_of_call linkName) calls))"
    by (simp_all add: defer_inv_def defer_head_def)
  have "run (parseFunc_deferPtr True @ sites) (entry_machine sp0) = Some M"
    using r0 r by (simp add: run_append)
  moreover have "\<forall>fs. defer_chain (mem M) h fs \<longrightarrow>
      fs = rev (map (frame_of_call linkName) calls) \<and> length fs = length calls"
    using defer_chain_unique [OF _ ch] by (metis length_map length_rev)
  ultimately show ?thesis using r0 h0 hd ch by blast
qed


theorem defer_list_reverse_chain_witness:
  "defer_sites ''main.f'' [FunctionCall ''main.a'' [1::nat], FunctionCall ''main.b'' [2]]
     = Inr [Load_defer_next, Alloca_defer_alloca,
            Store_frame [Callback ''main.a$defer'', Next, Value 1], Store_alloca_deferPtr,
            Load_defer_next, Alloca_defer_alloca,
            Store_frame [Callback ''main.b$defer'', Next, Value 2], Store_alloca_deferPtr] \<and>
   (\<exists>M h. run (parseFunc_deferPtr True @
                 [Load_defer_next, Alloca_defer_alloca,
                  Store_frame [Callback ''main.a$defer'', Next, Value (1::nat)], Store_alloca_deferPtr,
                  Load_defer_next, Alloca_defer_alloca,
                  Store_frame [Callback ''main.b$defer'', Next, Value 2], Store_alloca_deferPtr])
               (entry_machine 1) = Some M \<and>
          defer_head M = Some h \<and>
          defer_chain (mem M) h [(''main.b$defer'', [RVal 2]), (''main.a$defer'', [RVal 1])])"
proof -
  have s: "defer_sites ''main.f'' [FunctionCall ''main.a'' [1::nat], FunctionCall ''main.b'' [2]]
     = Inr [Load_defer_next, Alloca_defer_alloca,
            Store_frame [Callback ''main.a$defer'', Next, Value 1], Store_alloca_deferPtr,
            Load_defer_next, Alloca_defer_alloca,
            Store_frame [Callback ''main.b$defer'', Next, Value 2], Store_alloca_deferPtr]"
    by (simp add: parseInstr_Defer_def)
  have p: "(0::nat) < 1" by simp
  from defer_list_reverse_chain [OF p s] obtain M h where
    r: "run (parseFunc_deferPtr True @
                 [Load_defer_next, Alloca_defer_alloca,
                  Store_frame [Callback ''main.a$defer'', Next, Value (1::nat)], Store_alloca_deferPtr,
                  Load_defer_next, Alloca_defer_alloca,
                  Store_frame [Callback ''main.b$defer'', Next, Value 2], Store_alloca_deferPtr])
               (entry_machine 1) = Some M"
    and h: "defer_head M = Some h"
    and c: "defer_chain (mem M) h
              (rev (map (frame_of_call ''main.f'')
                 [FunctionCall ''main.a'' [1::nat], FunctionCall ''main.b'' [2]]))"
    by blast
  from c have "defer_chain (mem M) h [(''main.b$defer'', [RVal 2]), (''main.a$defer'', [RVal 1])]"
    by simp
  with s r h show ?thesis by blast
qed


section \<open>Map literals\<close>

subsection \<open>The bucket chain of a literal with supported keys\<close>

lemma upd_bucket_simps:
  "tophash (upd_bucket s e b) = (tophash b)[s := fst e]"
  "bucket_keys (upd_bucket s e b) = (bucket_keys b)[s := Some (fst (snd e))]"
  "bucket_values (upd_bucket s e b) = (bucket_values b)[s := Some (snd (snd e))]"
  "next_bucket (upd_bucket s e b) = next_bucket b"
  by (simp_all add: upd_bucket_def)

lemma buckets_inv_empty: "buckets_inv [] [zero_bucket] 0"
  by (simp add: buckets_inv_def zero_bucket_def)

lemma div8: "m < 8 \<Longrightarrow> (8 * q + m) div 8 = (q::nat)"
  by simp

lemma nb_next: "max (1::nat) ((i + 1 + 7) div 8) = i div 8 + 1"
  by simp

lemma nb_same:
  assumes "\<not> (i mod 8 = 0 \<and> i \<noteq> 0)"
  shows "max (1::nat) ((i + 7) div 8) = i div 8 + 1"
proof (cases "i = 0")
  case True
  then show ?thesis by simp
next
  case False
  define q where "q = i div 8"
  define m where "m = i mod 8"
  have i: "i = 8 * q + m" and m8: "m < 8" by (simp_all add: q_def m_def)
  from False assms have m0: "m \<noteq> 0" by (simp add: m_def)
  have "i + 7 = 8 * (q + 1) + (m - 1)" using i m0 by simp
  moreover have "m - 1 < 8" using m8 by simp
  ultimately have "(i + 7) div 8 = q + 1" using div8 [of "m - 1" "q + 1"] by simp
  then show ?thesis by (simp add: q_def)
qed

lemma nb_new:
  assumes "i mod 8 = 0" and "i \<noteq> 0"
  shows "max (1::nat) ((i + 7) div 8) = i div 8 \<and> 1 \<le> i div 8"
proof -
  define q where "q = i div 8"
  have i: "i = 8 * q" using assms(1) by (simp add: q_def mod_eq_0_iff_dvd)
  with assms(2) have q: "1 \<le> q" by simp
  have "(i + 7) div 8 = q" using div8 [of 7 q] i by simp
  with q show ?thesis by (simp add: q_def [symmetric])
qed

lemma buckets_inv_length:
  "buckets_inv ents globals bg \<Longrightarrow> length globals = max 1 ((length ents + 7) div 8)"
  by (simp add: buckets_inv_def)

lemma buckets_inv_bg: "buckets_inv ents globals bg \<Longrightarrow> bg = length globals - 1"
  by (simp add: buckets_inv_def)

lemma buckets_inv_shape:
  "buckets_inv ents globals bg \<Longrightarrow> b < length globals \<Longrightarrow>
     length (tophash (globals ! b)) = 8 \<and>
     length (bucket_keys (globals ! b)) = 8 \<and>
     length (bucket_values (globals ! b)) = 8 \<and>
     next_bucket (globals ! b) = (if b + 1 < length globals then Some (b + 1) else None)"
  unfolding buckets_inv_def by blast

lemma buckets_inv_entry:
  "buckets_inv ents globals bg \<Longrightarrow> j < length ents \<Longrightarrow>
     tophash (globals ! (j div 8)) ! (j mod 8) = fst (ents ! j) \<and>
     bucket_keys (globals ! (j div 8)) ! (j mod 8) = Some (fst (snd (ents ! j))) \<and>
     bucket_values (globals ! (j div 8)) ! (j mod 8) = Some (snd (snd (ents ! j)))"
  unfolding buckets_inv_def by blast

lemma buckets_inv_same_bucket:
  assumes inv: "buckets_inv ents globals bg"
    and i: "i = length ents" and c: "\<not> (i mod 8 = 0 \<and> i \<noteq> 0)"
  shows "buckets_inv (ents @ [e]) (globals[bg := upd_bucket (i mod 8) e (globals ! bg)]) bg"
proof -
  have n: "length globals = i div 8 + 1"
    using buckets_inv_length [OF inv] nb_same [OF c] unfolding i by simp
  have bg: "bg = i div 8" using buckets_inv_bg [OF inv] n by simp
  have n': "max 1 ((length (ents @ [e]) + 7) div 8) = i div 8 + 1"
    using i nb_next [of i] by simp
  have shape: "\<And>b. b < length globals \<Longrightarrow>
        length (tophash (globals ! b)) = 8 \<and>
        length (bucket_keys (globals ! b)) = 8 \<and>
        length (bucket_values (globals ! b)) = 8 \<and>
        next_bucket (globals ! b) = (if b + 1 < length globals then Some (b + 1) else None)"
    by (rule buckets_inv_shape [OF inv])
  have old: "\<And>j. j < i \<Longrightarrow>
        tophash (globals ! (j div 8)) ! (j mod 8) = fst (ents ! j) \<and>
        bucket_keys (globals ! (j div 8)) ! (j mod 8) = Some (fst (snd (ents ! j))) \<and>
        bucket_values (globals ! (j div 8)) ! (j mod 8) = Some (snd (snd (ents ! j)))"
    unfolding i by (rule buckets_inv_entry [OF inv])
  let ?g = "globals[bg := upd_bucket (i mod 8) e (globals ! bg)]"
  have s: "i mod 8 < 8" by simp
  have bgl: "bg < length globals" using n bg by simp
  have p1: "length ?g = max 1 ((length (ents @ [e]) + 7) div 8)" using n n' by simp
  have p2: "bg = length ?g - 1" using n bg by simp
  have p3: "length (tophash (?g ! b)) = 8 \<and>
        length (bucket_keys (?g ! b)) = 8 \<and>
        length (bucket_values (?g ! b)) = 8 \<and>
        next_bucket (?g ! b) = (if b + 1 < length ?g then Some (b + 1) else None)"
    if "b < length ?g" for b
    using that shape [of b] by (cases "b = bg") (simp_all add: upd_bucket_simps)
  have p4: "tophash (?g ! (j div 8)) ! (j mod 8) = fst ((ents @ [e]) ! j) \<and>
        bucket_keys (?g ! (j div 8)) ! (j mod 8) = Some (fst (snd ((ents @ [e]) ! j))) \<and>
        bucket_values (?g ! (j div 8)) ! (j mod 8) = Some (snd (snd ((ents @ [e]) ! j)))"
    if "j < length (ents @ [e])" for j
  proof (cases "j = i")
    case True
    have g: "?g ! (i div 8) = upd_bucket (i mod 8) e (globals ! bg)"
      using bg bgl by simp
    have e: "(ents @ [e]) ! i = e" using i by simp
    show ?thesis
      unfolding True g e using shape [OF bgl] s by (simp add: upd_bucket_simps)
  next
    case False
    with that i have ji: "j < i" by simp
    have jb: "j div 8 < length globals" using ji n by (simp add: div_le_mono less_Suc_eq_le)
    show ?thesis
    proof (cases "j div 8 = bg")
      case True
      have ne: "j mod 8 \<noteq> i mod 8"
      proof
        assume "j mod 8 = i mod 8"
        with True bg have "j = i" by (metis div_mult_mod_eq)
        with ji show False by simp
      qed
      have g: "?g ! (j div 8) = upd_bucket (i mod 8) e (globals ! (j div 8))"
        using True bgl by simp
      have e: "(ents @ [e]) ! j = ents ! j" using ji i by (simp add: nth_append)
      show ?thesis
        unfolding g e using old [OF ji] ne by (simp add: upd_bucket_simps)
    next
      case False
      then have g: "?g ! (j div 8) = globals ! (j div 8)" by simp
      have e: "(ents @ [e]) ! j = ents ! j" using ji i by (simp add: nth_append)
      show ?thesis
        unfolding g e using old [OF ji] by simp
    qed
  qed
  show ?thesis
    unfolding buckets_inv_def
  proof (intro conjI)
    show "length ?g = max 1 ((length (ents @ [e]) + 7) div 8)" by (rule p1)
    show "bg = length ?g - 1" by (rule p2)
    show "\<forall>b<length ?g.
        length (tophash (?g ! b)) = 8 \<and>
        length (bucket_keys (?g ! b)) = 8 \<and>
        length (bucket_values (?g ! b)) = 8 \<and>
        next_bucket (?g ! b) = (if b + 1 < length ?g then Some (b + 1) else None)"
      using p3 by (intro allI impI)
    show "\<forall>j<length (ents @ [e]).
        tophash (?g ! (j div 8)) ! (j mod 8) = fst ((ents @ [e]) ! j) \<and>
        bucket_keys (?g ! (j div 8)) ! (j mod 8) = Some (fst (snd ((ents @ [e]) ! j))) \<and>
        bucket_values (?g ! (j div 8)) ! (j mod 8) = Some (snd (snd ((ents @ [e]) ! j)))"
      using p4 by (intro allI impI)
  qed
qed


lemma buckets_inv_new_bucket:
  assumes inv: "buckets_inv ents globals bg"
    and i: "i = length ents" and c: "i mod 8 = 0" "i \<noteq> 0"
    and g1: "g1 = (globals @ [zero_bucket])
                    [bg := ((globals @ [zero_bucket]) ! bg)\<lparr>next_bucket := Some (length globals)\<rparr>]"
  shows "buckets_inv (ents @ [e])
           (g1[length globals := upd_bucket (i mod 8) e (g1 ! length globals)]) (length globals)"
proof -
  define m where "m = length globals"
  have n: "m = i div 8" and m1: "1 \<le> m"
    using buckets_inv_length [OF inv] nb_new [OF c] unfolding i m_def by simp_all
  have bg: "bg = m - 1" using buckets_inv_bg [OF inv] by (simp add: m_def)
  have bgm: "bg < m" using bg m1 by simp
  have shape: "\<And>b. b < m \<Longrightarrow>
        length (tophash (globals ! b)) = 8 \<and>
        length (bucket_keys (globals ! b)) = 8 \<and>
        length (bucket_values (globals ! b)) = 8 \<and>
        next_bucket (globals ! b) = (if b + 1 < m then Some (b + 1) else None)"
    unfolding m_def by (rule buckets_inv_shape [OF inv])
  have old: "\<And>j. j < i \<Longrightarrow>
        tophash (globals ! (j div 8)) ! (j mod 8) = fst (ents ! j) \<and>
        bucket_keys (globals ! (j div 8)) ! (j mod 8) = Some (fst (snd (ents ! j))) \<and>
        bucket_values (globals ! (j div 8)) ! (j mod 8) = Some (snd (snd (ents ! j)))"
    unfolding i by (rule buckets_inv_entry [OF inv])
  define g where "g = g1[m := upd_bucket (i mod 8) e (g1 ! m)]"
  have lg1: "length g1 = m + 1" by (simp add: g1 m_def)
  have lg: "length g = m + 1" by (simp add: g_def lg1)
  have g1_last: "g1 ! m = zero_bucket"
    using bgm by (simp add: g1 m_def [symmetric] nth_append)
  have g_last: "g ! m = upd_bucket (i mod 8) e zero_bucket"
    by (simp add: g_def lg1 g1_last)
  have g_bg: "g ! bg = (globals ! bg)\<lparr>next_bucket := Some m\<rparr>"
    using bgm by (simp add: g_def g1 m_def [symmetric] nth_append)
  have g_other: "g ! b = globals ! b" if "b < m" "b \<noteq> bg" for b
    using that by (simp add: g_def g1 m_def [symmetric] nth_append)
  have p1: "length g = max 1 ((length (ents @ [e]) + 7) div 8)"
    using lg n nb_next [of i] i by simp
  have p2: "m = length g - 1" using lg by simp
  have p3: "length (tophash (g ! b)) = 8 \<and>
        length (bucket_keys (g ! b)) = 8 \<and>
        length (bucket_values (g ! b)) = 8 \<and>
        next_bucket (g ! b) = (if b + 1 < length g then Some (b + 1) else None)"
    if blt: "b < length g" for b
  proof -
    from blt lg have "b = m \<or> b < m" by auto
    then consider (last) "b = m" | (prev) "b = bg" | (other) "b < m" "b \<noteq> bg"
      by blast
    then show ?thesis
    proof cases
      case last
      then show ?thesis
        by (simp add: g_last lg upd_bucket_simps zero_bucket_def)
    next
      case prev
      show ?thesis
        unfolding prev g_bg lg using shape [OF bgm] bg m1 by simp
    next
      case other
      then have "b + 1 < m" using bg by simp
      then show ?thesis
        using shape [OF other(1)] by (simp add: g_other [OF other] lg)
    qed
  qed
  have p4: "tophash (g ! (j div 8)) ! (j mod 8) = fst ((ents @ [e]) ! j) \<and>
        bucket_keys (g ! (j div 8)) ! (j mod 8) = Some (fst (snd ((ents @ [e]) ! j))) \<and>
        bucket_values (g ! (j div 8)) ! (j mod 8) = Some (snd (snd ((ents @ [e]) ! j)))"
    if "j < length (ents @ [e])" for j
  proof (cases "j = i")
    case True
    have e: "(ents @ [e]) ! i = e" using i by simp
    show ?thesis
      unfolding True n [symmetric] g_last e
      by (simp add: upd_bucket_simps zero_bucket_def c(1))
  next
    case False
    with that i have ji: "j < i" by simp
    have "i = 8 * m" using c(1) n by (simp add: mod_eq_0_iff_dvd)
    with ji have jb: "j div 8 < m" by (simp add: less_mult_imp_div_less mult.commute)
    have e: "(ents @ [e]) ! j = ents ! j" using ji i by (simp add: nth_append)
    show ?thesis
    proof (cases "j div 8 = bg")
      case True
      show ?thesis
        unfolding e True g_bg using old [OF ji] True by simp
    next
      case False
      show ?thesis
        unfolding e g_other [OF jb False] by (rule old [OF ji])
    qed
  qed
  show ?thesis
    unfolding buckets_inv_def m_def [symmetric] g_def [symmetric]
  proof (intro conjI)
    show "length g = max 1 ((length (ents @ [e]) + 7) div 8)" by (rule p1)
    show "m = length g - 1" by (rule p2)
    show "\<forall>b<length g.
        length (tophash (g ! b)) = 8 \<and>
        length (bucket_keys (g ! b)) = 8 \<and>
        length (bucket_values (g ! b)) = 8 \<and>
        next_bucket (g ! b) = (if b + 1 < length g then Some (b + 1) else None)"
      using p3 by (intro allI impI)
    show "\<forall>j<length (ents @ [e]).
        tophash (g ! (j div 8)) ! (j mod 8) = fst ((ents @ [e]) ! j) \<and>
        bucket_keys (g ! (j div 8)) ! (j mod 8) = Some (fst (snd ((ents @ [e]) ! j))) \<and>
        bucket_values (g ! (j div 8)) ! (j mod 8) = Some (snd (snd ((ents @ [e]) ! j)))"
      using p4 by (intro allI impI)
  qed
qed


lemma MapValue_loop_step:
  assumes k: "interp key = Inr lk" and iv: "i < length Values"
    and v: "interp (Values ! i) = Inr lv" and sk: "supported_key key"
    and bt: "bucketType = Inr (ks, vs)"
  shows "MapValue_loop interp hH hT bucketType intSize Values i (key # Keys) globals bg =
     (if i mod 8 = 0 \<and> i \<noteq> 0 then
        MapValue_loop interp hH hT bucketType intSize Values (i + 1) Keys
          (((globals @ [zero_bucket])
              [bg := ((globals @ [zero_bucket]) ! bg)\<lparr>next_bucket := Some (length globals)\<rparr>])
             [length globals :=
                upd_bucket (i mod 8) (entry_of interp hH hT intSize Values i key)
                  (((globals @ [zero_bucket])
                      [bg := ((globals @ [zero_bucket]) ! bg)\<lparr>next_bucket := Some (length globals)\<rparr>])
                   ! length globals)])
          (length globals)
      else
        MapValue_loop interp hH hT bucketType intSize Values (i + 1) Keys
          (globals[bg := upd_bucket (i mod 8) (entry_of interp hH hT intSize Values i key)
                           (globals ! bg)])
          bg)"
proof -
  from sk obtain kd c where key: "key = ConstValue (Basic kd) c"
    and kd: "kd = String \<or> kd = UntypedString \<or> kd = Int_kind"
    by (cases key rule: supported_key.cases) auto
  have e: "entry_of interp hH hT intSize Values i key = (hT (hH (keyBuf_of intSize key)), lk, lv)"
    by (simp add: entry_of_def k v)
  show ?thesis
  proof (cases "i mod 8 = 0 \<and> i \<noteq> 0")
    case True
    then show ?thesis
      unfolding e using k v iv kd bt
      by (auto simp add: key initMapNewBucket_def upd_bucket_def Let_def)
  next
    case False
    then show ?thesis
      unfolding e using k v iv kd bt
      by (auto simp add: key upd_bucket_def Let_def)
  qed
qed


lemma length_entries_from [simp]:
  "length (entries_from interp hH hT intSize Values i Keys) = length Keys"
  by (induction Keys arbitrary: i) simp_all

lemma nth_entries_from:
  "j < length Keys \<Longrightarrow>
   entries_from interp hH hT intSize Values i Keys ! j
     = entry_of interp hH hT intSize Values (i + j) (Keys ! j)"
proof (induction Keys arbitrary: i j)
  case Nil
  then show ?case by simp
next
  case (Cons key Keys)
  show ?case
  proof (cases j)
    case 0
    then show ?thesis by simp
  next
    case (Suc j')
    with Cons.prems have "j' < length Keys" by simp
    from Cons.IH [OF this, of "i + 1"] Suc show ?thesis by simp
  qed
qed

lemma MapValue_loop_supported:
  assumes bt: "bucketType = Inr (ks, vs)"
  shows "(\<forall>key\<in>set Keys. supported_key key \<and> (\<exists>lk. interp key = Inr lk)) \<Longrightarrow>
     i + length Keys \<le> length Values \<Longrightarrow>
     (\<forall>j. i \<le> j \<and> j < i + length Keys \<longrightarrow> (\<exists>lv. interp (Values ! j) = Inr lv)) \<Longrightarrow>
     buckets_inv ents globals bg \<Longrightarrow> i = length ents \<Longrightarrow>
     \<exists>globals' bg'.
        MapValue_loop interp hH hT bucketType intSize Values i Keys globals bg = Inr (Some globals') \<and>
        buckets_inv (ents @ entries_from interp hH hT intSize Values i Keys) globals' bg'"
proof (induction Keys arbitrary: i ents globals bg)
  case Nil
  then show ?case by auto
next
  case (Cons key Keys)
  from Cons.prems(1) obtain lk where sk: "supported_key key" and k: "interp key = Inr lk"
    by auto
  from Cons.prems(2) have iv: "i < length Values" by simp
  from Cons.prems(3) obtain lv where v: "interp (Values ! i) = Inr lv"
    by (metis le_refl length_Cons less_add_Suc1 add_Suc_right)
  define e where "e = entry_of interp hH hT intSize Values i key"
  note step = MapValue_loop_step [OF k iv v sk bt, of hH hT intSize Keys globals bg,
      folded e_def]
  have p1: "\<forall>key\<in>set Keys. supported_key key \<and> (\<exists>lk. interp key = Inr lk)"
    using Cons.prems(1) by simp
  have p2: "(i + 1) + length Keys \<le> length Values" using Cons.prems(2) by simp
  have p3: "\<forall>j. i + 1 \<le> j \<and> j < (i + 1) + length Keys \<longrightarrow> (\<exists>lv. interp (Values ! j) = Inr lv)"
    using Cons.prems(3) by simp
  have p5: "i + 1 = length (ents @ [e])" using Cons.prems(5) by simp
  have app: "(ents @ [e]) @ entries_from interp hH hT intSize Values (i + 1) Keys
               = ents @ entries_from interp hH hT intSize Values i (key # Keys)"
    by (simp add: e_def)
  show ?case
  proof (cases "i mod 8 = 0 \<and> i \<noteq> 0")
    case True
    define g1 where "g1 = (globals @ [zero_bucket])
                    [bg := ((globals @ [zero_bucket]) ! bg)\<lparr>next_bucket := Some (length globals)\<rparr>]"
    from True have c: "i mod 8 = 0" "i \<noteq> 0" by simp_all
    have inv: "buckets_inv (ents @ [e])
           (g1[length globals := upd_bucket (i mod 8) e (g1 ! length globals)]) (length globals)"
      by (rule buckets_inv_new_bucket [OF Cons.prems(4) Cons.prems(5) c g1_def])
    from Cons.IH [OF p1 p2 p3 inv p5] obtain globals' bg' where
      "MapValue_loop interp hH hT bucketType intSize Values (i + 1) Keys
         (g1[length globals := upd_bucket (i mod 8) e (g1 ! length globals)]) (length globals)
         = Inr (Some globals')"
      and "buckets_inv ((ents @ [e]) @ entries_from interp hH hT intSize Values (i + 1) Keys)
             globals' bg'"
      by blast
    then show ?thesis
      unfolding app using step True by (auto simp: g1_def)
  next
    case False
    have inv: "buckets_inv (ents @ [e])
           (globals[bg := upd_bucket (i mod 8) e (globals ! bg)]) bg"
      by (rule buckets_inv_same_bucket [OF Cons.prems(4) Cons.prems(5) False])
    from Cons.IH [OF p1 p2 p3 inv p5] obtain globals' bg' where
      "MapValue_loop interp hH hT bucketType intSize Values (i + 1) Keys
         (globals[bg := upd_bucket (i mod 8) e (globals ! bg)]) bg = Inr (Some globals')"
      and "buckets_inv ((ents @ [e]) @ entries_from interp hH hT intSize Values (i + 1) Keys)
             globals' bg'"
      by blast
    then show ?thesis
      unfolding app using step False by auto
  qed
qed

lemma MapValue_bucket_chain:
  assumes bt: "bucketType = Inr (ks, vs)"
    and keys: "\<forall>key\<in>set Keys. supported_key key \<and> (\<exists>lk. interp key = Inr lk)"
    and len: "length Keys \<le> length Values"
    and vals: "\<forall>j<length Keys. \<exists>lv. interp (Values ! j) = Inr lv"
  shows "\<exists>globals.
     getInterpretedValue_MapValue interp hH hT bucketType intSize lenWidth Keys Values
       = Inr (HashmapGlobal
                \<lparr>hm_next = None, hm_buckets = 0, hm_count = length Keys mod 2 ^ lenWidth,
                  hm_keySize = ks mod 2 ^ 8, hm_valueSize = vs mod 2 ^ 8, hm_bucketBits = 0\<rparr>
                globals) \<and>
     length globals = max 1 ((length Keys + 7) div 8) \<and>
     (\<forall>b<length globals.
        next_bucket (globals ! b) = (if b + 1 < length globals then Some (b + 1) else None)) \<and>
     (\<forall>j<length Keys.
        tophash (globals ! (j div 8)) ! (j mod 8) = hT (hH (keyBuf_of intSize (Keys ! j))) \<and>
        bucket_keys (globals ! (j div 8)) ! (j mod 8) = Some (projr (interp (Keys ! j))) \<and>
        bucket_values (globals ! (j div 8)) ! (j mod 8) = Some (projr (interp (Values ! j))))"
proof -
  have v0: "\<forall>j. 0 \<le> j \<and> j < 0 + length Keys \<longrightarrow> (\<exists>lv. interp (Values ! j) = Inr lv)"
    using vals by simp
  have l0: "0 + length Keys \<le> length Values" using len by simp
  have i0: "0 = length ([] :: (byte \<times> 'a \<times> 'a) list)" by simp
  from MapValue_loop_supported [OF bt keys l0 v0 buckets_inv_empty i0, of hH hT intSize]
  obtain globals bg where
    loop: "MapValue_loop interp hH hT bucketType intSize Values 0 Keys [zero_bucket] 0
             = Inr (Some globals)"
    and inv: "buckets_inv (entries_from interp hH hT intSize Values 0 Keys) globals bg"
    by auto
  have r: "getInterpretedValue_MapValue interp hH hT bucketType intSize lenWidth Keys Values
       = Inr (HashmapGlobal
                \<lparr>hm_next = None, hm_buckets = 0, hm_count = length Keys mod 2 ^ lenWidth,
                  hm_keySize = ks mod 2 ^ 8, hm_valueSize = vs mod 2 ^ 8, hm_bucketBits = 0\<rparr>
                globals)"
    using loop by (simp add: getInterpretedValue_MapValue_def initMapNewBucket_def bt)
  have n: "length globals = max 1 ((length Keys + 7) div 8)"
    using buckets_inv_length [OF inv] by simp
  have nx: "\<forall>b<length globals.
        next_bucket (globals ! b) = (if b + 1 < length globals then Some (b + 1) else None)"
    using buckets_inv_shape [OF inv] by blast
  have en: "tophash (globals ! (j div 8)) ! (j mod 8) = hT (hH (keyBuf_of intSize (Keys ! j))) \<and>
        bucket_keys (globals ! (j div 8)) ! (j mod 8) = Some (projr (interp (Keys ! j))) \<and>
        bucket_values (globals ! (j div 8)) ! (j mod 8) = Some (projr (interp (Values ! j)))"
    if j: "j < length Keys" for j
    using buckets_inv_entry [OF inv, of j] j
    by (simp add: nth_entries_from entry_of_def)
  show ?thesis using r n nx en by blast
qed

subsection \<open>Keys of other types\<close>

text \<open>A key of a basic type other than string and \<^verbatim>\<open>int\<close>, once it and its value are
  materialised, is reported.\<close>

lemma MapValue_unsupported_basic_key:
  assumes "interp (ConstValue (Basic k) c) = Inr lk" and "interp v = Inr lv"
    and "k \<noteq> String" "k \<noteq> UntypedString" "k \<noteq> Int_kind"
  shows "getInterpretedValue_MapValue interp hH hT (Inr (ks, vs)) intSize lenWidth
           (ConstValue (Basic k) c # Keys) (v # Values) = Inl (UnsupportedMapKey k)"
  using assms by (simp add: getInterpretedValue_MapValue_def initMapNewBucket_def)

text \<open>C4: a key of any unsupported type should fail with the UnsupportedMapKey error. A key of
  type \<^verbatim>\<open>complex64\<close>, whose constant is not materialised, makes the materialiser return the
  zero value and no error; a key of a type that is not basic (here a pointer type) ends in a
  failed type assertion.\<close>

theorem MapValue_unsupported_key_not_reported:
  "getInterpretedValue_MapValue example_interp example_hashmapHash example_hashmapTopHash
     (Inr (8, 4)) 4 32
     [ConstValue (Basic Complex64) OtherConst] [ConstValue (Basic Int_kind) (IntConst 2)]
     = Inr NilValue \<and>
   getInterpretedValue_MapValue example_interp example_hashmapHash example_hashmapTopHash
     (Inr (4, 4)) 4 32
     [ConstValue (NotBasic ''*int'') OtherConst] [ConstValue (Basic Int_kind) (IntConst 1)]
     = Inl (GoPanic ''interface conversion: types.Type is not *types.Basic'')"
  by (simp add: getInterpretedValue_MapValue_def initMapNewBucket_def)

end
